theory Spec2Isabelle
  imports Main "HOL-Library.AList"
begin

section \<open>Data model (types.ts, constants.ts)\<close>

text \<open>
  Chip amounts and seat indices are JavaScript numbers holding integers; they are modelled
  as \<open>int\<close>, so that negative values (\<open>lastRaiserIndex = -1\<close>, the \<open>-1\<close> of
  \<open>findIndex\<close>) are values of the model. Strings are \<open>string\<close>, arrays are lists.

  Record fields are global names in HOL, so each source field name is kept once and the
  other occurrences are suffixed: \<open>Player.id\<close> is \<open>pid\<close> (\<open>id\<close> is the identity
  function of HOL), \<open>GameState.currentBet\<close> is \<open>currentBet_g\<close>,
  \<open>PlayerAction.type\<close> and \<open>PlayerAction.amount\<close> are \<open>type_a\<close> and \<open>amount_a\<close>,
  the fields of \<open>PublicPlayer\<close> end in \<open>_pp\<close> and those of \<open>PublicGameState\<close> in
  \<open>_pg\<close>.
\<close>

datatype GamePhase = Lobby | Preflop | Flop | Turn | River | Showdown

datatype Suit = Spades | Hearts | Diamonds | Clubs

record Card =
  rank :: int
  suit :: Suit

datatype ActionType = Fold | Check | Call | Raise | AllIn

record PlayerAction =
  type_a :: ActionType
  amount_a :: "int option"

record Player =
  pid :: string
  name :: string
  chips :: int
  holeCards :: "Card list"
  currentBet :: int
  totalBetThisHand :: int
  folded :: bool
  allIn :: bool
  isDealer :: bool
  sessionToken :: string

record PublicPlayer =
  id_pp :: string
  name_pp :: string
  chips_pp :: int
  currentBet_pp :: int
  folded_pp :: bool
  allIn_pp :: bool
  isDealer_pp :: bool
  hasCards :: bool

record LegalActions =
  canFold :: bool
  canCheck :: bool
  canCall :: bool
  callAmount :: int
  canRaise :: bool
  minRaise :: int
  maxRaise :: int
  canAllIn :: bool
  allInAmount :: int

record Pot =
  amount :: int
  eligiblePlayerIds :: "string list"

record GameState =
  phase :: GamePhase
  players :: "Player list"
  communityCards :: "Card list"
  pots :: "Pot list"
  currentBet_g :: int
  dealerIndex :: int
  activePlayerIndex :: int
  lastRaiserIndex :: int
  raisesThisStreet :: int
  deck :: "Card list"
  smallBlind :: int
  bigBlind :: int
  streetBetSize :: int

record PublicGameState =
  phase_pg :: GamePhase
  players_pg :: "PublicPlayer list"
  communityCards_pg :: "Card list"
  pots_pg :: "Pot list"
  currentBet_pg :: int
  dealerIndex_pg :: int
  activePlayerIndex_pg :: int
  smallBlind_pg :: int
  bigBlind_pg :: int

text \<open>The exceptions the modelled code can throw.\<close>

datatype error =
  NotEnoughCards  \<comment> \<open>the \<open>Error\<close> thrown by \<open>dealCards\<close>\<close>
| TypeError       \<comment> \<open>a property read on \<open>undefined\<close> (an array read out of range)\<close>

text \<open>\<open>DEFAULT_SETTINGS\<close> of constants.ts.\<close>

definition startingChips :: int where "startingChips = 20"
definition defaultSmallBlind :: int where "defaultSmallBlind = 1"
definition defaultBigBlind :: int where "defaultBigBlind = 2"
definition maxRaisesPerStreet :: int where "maxRaisesPerStreet = 3"
definition minPlayers :: int where "minPlayers = 2"
definition maxPlayers :: int where "maxPlayers = 6"
definition preflopFlopBetSize :: int where "preflopFlopBetSize = 1"
definition turnRiverBetSize :: int where "turnRiverBetSize = 2"

section \<open>JavaScript primitives\<close>

text \<open>
  \<open>a % n\<close> on integers: the remainder of the division truncated towards zero, with the
  sign of the dividend (\<open>-3 % 2 = -1\<close>).
\<close>

definition jsRem :: "int \<Rightarrow> int \<Rightarrow> int" where
  "jsRem a n = sgn a * (\<bar>a\<bar> mod \<bar>n\<bar>)"

text \<open>\<open>xs[i]\<close>: \<open>undefined\<close> (here \<open>None\<close>) when \<open>i\<close> is not an index of the array.\<close>

definition arrayGet :: "'a list \<Rightarrow> int \<Rightarrow> 'a option" where
  "arrayGet xs i = (if 0 \<le> i \<and> i < int (length xs) then Some (xs ! nat i) else None)"

text \<open>\<open>xs.findIndex(P)\<close>: the first index whose element satisfies \<open>P\<close>, or \<open>-1\<close>.\<close>

fun findIndexFrom :: "('a \<Rightarrow> bool) \<Rightarrow> 'a list \<Rightarrow> int \<Rightarrow> int" where
  "findIndexFrom P [] i = -1"
| "findIndexFrom P (x # xs) i = (if P x then i else findIndexFrom P xs (i + 1))"

definition findIndex :: "('a \<Rightarrow> bool) \<Rightarrow> 'a list \<Rightarrow> int" where
  "findIndex P xs = findIndexFrom P xs 0"

text \<open>
  \<open>[...new Set(xs)]\<close>: the distinct elements of \<open>xs\<close> in the order of their first
  occurrence.
\<close>

definition newSet :: "'a list \<Rightarrow> 'a list" where
  "newSet xs = rev (remdups (rev xs))"

section \<open>Side pots (side-pots.ts)\<close>

text \<open>
  The objects \<open>{id, totalBet}\<close> of \<open>activePlayers\<close> are pairs. \<open>Array.prototype.sort\<close>
  is stable, as is \<open>sort_key\<close>. The body of the loop over \<open>betLevels\<close> is
  \<open>potLoop\<close>, which carries \<open>previousBetLevel\<close> and \<open>pots\<close>; the inner loop that
  accumulates \<open>potAmount\<close> is a left fold over all the players.
\<close>

definition potAmountOf :: "Player list \<Rightarrow> int \<Rightarrow> int \<Rightarrow> int" where
  "potAmountOf ps previousBetLevel contribution =
     foldl (\<lambda>potAmount player.
              potAmount + min (max 0 (totalBetThisHand player - previousBetLevel)) contribution)
           0 ps"

fun potLoop :: "Player list \<Rightarrow> (string \<times> int) list \<Rightarrow> int list \<Rightarrow> int \<Rightarrow> Pot list \<Rightarrow> Pot list" where
  "potLoop ps activePlayers [] previousBetLevel pts = pts"
| "potLoop ps activePlayers (betLevel # betLevels) previousBetLevel pts =
     (let contribution = betLevel - previousBetLevel in
      if contribution \<le> 0 then potLoop ps activePlayers betLevels previousBetLevel pts
      else
        let eligiblePlayers = map fst (filter (\<lambda>p. snd p \<ge> betLevel) activePlayers);
            potAmount = potAmountOf ps previousBetLevel contribution
        in if potAmount > 0 \<and> length eligiblePlayers = 0 \<and> length pts > 0 then
             potLoop ps activePlayers betLevels betLevel
               (butlast pts @ [(last pts)\<lparr>amount := amount (last pts) + potAmount\<rparr>])
           else if potAmount > 0 then
             potLoop ps activePlayers betLevels betLevel
               (pts @ [\<lparr>amount = potAmount, eligiblePlayerIds = eligiblePlayers\<rparr>])
           else potLoop ps activePlayers betLevels betLevel pts)"

definition calculateSidePots :: "Player list \<Rightarrow> Pot list" where
  "calculateSidePots ps =
     (let activePlayers =
            sort_key snd (map (\<lambda>p. (pid p, totalBetThisHand p)) (filter (\<lambda>p. \<not> folded p) ps))
      in if length activePlayers = 0 then [\<lparr>amount = 0, eligiblePlayerIds = []\<rparr>]
         else
           let betLevels = sort (newSet (filter (\<lambda>bet. bet > 0) (map totalBetThisHand ps)));
               pts = potLoop ps activePlayers betLevels 0 []
           in if length pts = 0 then
                [\<lparr>amount = 0, eligiblePlayerIds = map pid (filter (\<lambda>p. \<not> folded p) ps)\<rparr>]
              else pts)"

text \<open>
  \<open>awardPots\<close>. The \<open>Map\<close> of winnings is an association list in insertion order:
  \<open>Map.set\<close> replaces the value of a present key in place and appends a new key
  (\<open>AList.update\<close>), \<open>Map.get\<close> is \<open>map_of\<close>. \<open>winnersByPot\<close> is a partial map from
  the pot index. \<open>Math.floor(a / n)\<close> is \<open>div\<close>, which rounds down.
\<close>

type_synonym winnings = "(string \<times> int) list"

fun awardWinners :: "string list \<Rightarrow> int \<Rightarrow> int \<Rightarrow> nat \<Rightarrow> winnings \<Rightarrow> winnings" where
  "awardWinners [] share remainder j w = w"
| "awardWinners (winnerId # rest) share remainder j w =
     (let amt = share + (if int j < remainder then 1 else 0) in
      awardWinners rest share remainder (Suc j)
        (AList.update winnerId ((case map_of w winnerId of None \<Rightarrow> 0 | Some v \<Rightarrow> v) + amt) w))"

fun awardLoop :: "Pot list \<Rightarrow> (nat \<rightharpoonup> string list) \<Rightarrow> nat \<Rightarrow> winnings \<Rightarrow> winnings" where
  "awardLoop [] winnersByPot i w = w"
| "awardLoop (pot # rest) winnersByPot i w =
     (let winners = (case winnersByPot i of None \<Rightarrow> [] | Some ws \<Rightarrow> ws) in
      if length winners = 0 then awardLoop rest winnersByPot (Suc i) w
      else
        let share = amount pot div int (length winners);
            remainder = jsRem (amount pot) (int (length winners))
        in awardLoop rest winnersByPot (Suc i) (awardWinners winners share remainder 0 w))"

definition awardPots :: "Pot list \<Rightarrow> (nat \<rightharpoonup> string list) \<Rightarrow> winnings" where
  "awardPots pts winnersByPot = awardLoop pts winnersByPot 0 []"

section \<open>Deck (deck.ts)\<close>

definition RANKS :: "int list" where
  "RANKS = [2, 3, 4, 5, 6, 7, 8, 9, 10, 11, 12, 13, 14]"

definition SUITS :: "Suit list" where
  "SUITS = [Spades, Hearts, Diamonds, Clubs]"

definition createDeck :: "Card list" where
  "createDeck = concat (map (\<lambda>s. map (\<lambda>r. \<lparr>rank = r, suit = s\<rparr>) RANKS) SUITS)"

text \<open>
  \<open>dealCards(deck, count)\<close> throws when the deck is too short; otherwise it returns the
  first \<open>count\<close> cards and leaves the rest in the (mutated) deck, which the model returns
  as the second component.
\<close>

definition dealCards :: "Card list \<Rightarrow> nat \<Rightarrow> error + (Card list \<times> Card list)" where
  "dealCards dk count =
     (if length dk < count then Inl NotEnoughCards else Inr (take count dk, drop count dk))"

section \<open>Game state (game-state.ts)\<close>

definition createInitialState :: GameState where
  "createInitialState =
     \<lparr>phase = Lobby, players = [], communityCards = [],
      pots = [\<lparr>amount = 0, eligiblePlayerIds = []\<rparr>],
      currentBet_g = 0, dealerIndex = 0, activePlayerIndex = 0, lastRaiserIndex = -1,
      raisesThisStreet = 0, deck = [],
      smallBlind = defaultSmallBlind, bigBlind = defaultBigBlind,
      streetBetSize = preflopFlopBetSize\<rparr>"

text \<open>
  \<open>getNextActivePlayerIndex\<close>: the loop \<open>for (i = 1; i <= n; i++)\<close>. The first numeric
  argument of \<open>nextActiveLoop\<close> is the number of iterations left, the second is \<open>i\<close>.
  \<open>players[idx]\<close> is \<open>undefined\<close> when \<open>(fromIndex + i) % n\<close> is negative, and reading
  \<open>folded\<close> from it throws.
\<close>

fun nextActiveLoop :: "Player list \<Rightarrow> int \<Rightarrow> bool \<Rightarrow> nat \<Rightarrow> int \<Rightarrow> error + int" where
  "nextActiveLoop ps fromIndex includeAllIn 0 i = Inr (-1)"
| "nextActiveLoop ps fromIndex includeAllIn (Suc k) i =
     (let idx = jsRem (fromIndex + i) (int (length ps)) in
      case arrayGet ps idx of
        None \<Rightarrow> Inl TypeError
      | Some player \<Rightarrow>
          if \<not> folded player \<and> (includeAllIn \<or> \<not> allIn player) then Inr idx
          else nextActiveLoop ps fromIndex includeAllIn k (i + 1))"

definition getNextActivePlayerIndex :: "GameState \<Rightarrow> int \<Rightarrow> bool \<Rightarrow> error + int" where
  "getNextActivePlayerIndex state fromIndex includeAllIn =
     nextActiveLoop (players state) fromIndex includeAllIn (length (players state)) 1"

definition countActivePlayers :: "GameState \<Rightarrow> int" where
  "countActivePlayers state = int (length (filter (\<lambda>p. \<not> folded p) (players state)))"

definition countActingPlayers :: "GameState \<Rightarrow> int" where
  "countActingPlayers state =
     int (length (filter (\<lambda>p. \<not> folded p \<and> \<not> allIn p) (players state)))"

definition isBettingRoundComplete :: "GameState \<Rightarrow> error + bool" where
  "isBettingRoundComplete state =
     (let activePlayers = filter (\<lambda>p. \<not> folded p) (players state) in
      if length activePlayers \<le> 1 then Inr True
      else
        let actingPlayers = filter (\<lambda>p. \<not> allIn p) activePlayers in
        if length actingPlayers = 0 then Inr True
        else if list_ex (\<lambda>player. \<not> allIn player \<and> currentBet player < currentBet_g state)
                  activePlayers
        then Inr False
        else
          let actionAnchorIndex =
                (if lastRaiserIndex state \<ge> 0 then lastRaiserIndex state else dealerIndex state)
          in case getNextActivePlayerIndex state actionAnchorIndex False of
               Inl e \<Rightarrow> Inl e
             | Inr firstToActAfterAnchor \<Rightarrow>
                 if firstToActAfterAnchor = -1 then Inr True
                 else Inr (activePlayerIndex state = firstToActAfterAnchor))"

text \<open>
  \<open>startNewHand\<close>. The result of \<open>createShuffledDeck()\<close> is the argument \<open>shuffled\<close>: the
  shuffle draws from \<open>Math.random\<close>, so the model takes its outcome as an input.
  \<open>dealHoleCards\<close> is the loop that deals two cards to each player in seat order;
  \<open>postBlind\<close> is the four statements that post one blind.
\<close>

fun dealHoleCards :: "Player list \<Rightarrow> Card list \<Rightarrow> error + (Player list \<times> Card list)" where
  "dealHoleCards [] dk = Inr ([], dk)"
| "dealHoleCards (player # rest) dk =
     (case dealCards dk 2 of
        Inl e \<Rightarrow> Inl e
      | Inr (cards, dk') \<Rightarrow>
          (case dealHoleCards rest dk' of
             Inl e \<Rightarrow> Inl e
           | Inr (rest', dk'') \<Rightarrow> Inr (player\<lparr>holeCards := cards\<rparr> # rest', dk'')))"

definition postBlind :: "Player \<Rightarrow> int \<Rightarrow> Player" where
  "postBlind player blindAmount =
     player\<lparr>chips := chips player - blindAmount,
            currentBet := blindAmount,
            totalBetThisHand := blindAmount,
            allIn := (if chips player - blindAmount = 0 then True else allIn player)\<rparr>"

definition startNewHand :: "Card list \<Rightarrow> GameState \<Rightarrow> error + GameState" where
  "startNewHand shuffled state =
     (let n = int (length (players state)) in
      if n < minPlayers then Inr state
      else
        let newDealerIndex = jsRem (dealerIndex state + 1) n;
            players0 = map (\<lambda>(idx, p).
                              p\<lparr>holeCards := [], currentBet := 0, totalBetThisHand := 0,
                                folded := False, allIn := False,
                                isDealer := (int idx = newDealerIndex)\<rparr>)
                           (enumerate 0 (players state))
        in case dealHoleCards players0 shuffled of
             Inl e \<Rightarrow> Inl e
           | Inr (players1, dk) \<Rightarrow>
               let sbIndex = (if n = 2 then newDealerIndex else jsRem (newDealerIndex + 1) n);
                   bbIndex = (if n = 2 then jsRem (newDealerIndex + 1) n
                              else jsRem (newDealerIndex + 2) n)
               in (case (arrayGet players1 sbIndex, arrayGet players1 bbIndex) of
                    (Some sbPlayer, Some bbPlayer) \<Rightarrow>
                      let sbAmount = min (smallBlind state) (chips sbPlayer);
                          bbAmount = min (bigBlind state) (chips bbPlayer);
                          players2 = players1[nat sbIndex := postBlind sbPlayer sbAmount];
                          players3 = players2[nat bbIndex :=
                                       postBlind (players2 ! nat bbIndex) bbAmount];
                          firstToAct = (if n = 2 then newDealerIndex else jsRem (bbIndex + 1) n)
                      in Inr (state\<lparr>phase := Preflop,
                                    players := players3,
                                    communityCards := [],
                                    pots := [\<lparr>amount = sbAmount + bbAmount,
                                              eligiblePlayerIds = map pid players3\<rparr>],
                                    currentBet_g := bigBlind state,
                                    dealerIndex := newDealerIndex,
                                    activePlayerIndex := firstToAct,
                                    lastRaiserIndex := bbIndex,
                                    raisesThisStreet := 0,
                                    deck := dk,
                                    streetBetSize := preflopFlopBetSize\<rparr>)
                  | _ \<Rightarrow> Inl TypeError))"

text \<open>
  \<open>advanceStreet\<close>. \<open>nextPhase[state.phase]\<close> is \<open>undefined\<close> in the lobby and at
  showdown. The burn is a \<open>dealCards(deck, 1)\<close> whose result is dropped.
\<close>

definition nextPhase :: "GamePhase \<Rightarrow> GamePhase option" where
  "nextPhase ph =
     (case ph of Preflop \<Rightarrow> Some Flop | Flop \<Rightarrow> Some Turn | Turn \<Rightarrow> Some River
      | River \<Rightarrow> Some Showdown | _ \<Rightarrow> None)"

definition dealCommunity ::
    "GamePhase \<Rightarrow> Card list \<Rightarrow> Card list \<Rightarrow> error + (Card list \<times> Card list)" where
  "dealCommunity newPhase community dk =
     (if newPhase = Flop then
        (case dealCards dk 1 of
           Inl e \<Rightarrow> Inl e
         | Inr (burn, dk1) \<Rightarrow>
             (case dealCards dk1 3 of
                Inl e \<Rightarrow> Inl e
              | Inr (cards, dk2) \<Rightarrow> Inr (cards, dk2)))
      else if newPhase = Turn \<or> newPhase = River then
        (case dealCards dk 1 of
           Inl e \<Rightarrow> Inl e
         | Inr (burn, dk1) \<Rightarrow>
             (case dealCards dk1 1 of
                Inl e \<Rightarrow> Inl e
              | Inr (cards, dk2) \<Rightarrow> Inr (community @ cards, dk2)))
      else Inr (community, dk))"

definition advanceStreet :: "GameState \<Rightarrow> error + GameState" where
  "advanceStreet state =
     (case nextPhase (phase state) of
        None \<Rightarrow> Inr state
      | Some newPhase \<Rightarrow>
          (case dealCommunity newPhase (communityCards state) (deck state) of
             Inl e \<Rightarrow> Inl e
           | Inr (community, dk) \<Rightarrow>
               let players' = map (\<lambda>p. p\<lparr>currentBet := 0\<rparr>) (players state) in
               (case getNextActivePlayerIndex (state\<lparr>players := players'\<rparr>)
                       (dealerIndex state) False of
                  Inl e \<Rightarrow> Inl e
                | Inr firstToAct \<Rightarrow>
                    let streetBetSize' = (if newPhase = Turn \<or> newPhase = River
                                          then turnRiverBetSize else preflopFlopBetSize)
                    in Inr (state\<lparr>phase := newPhase,
                                  players := players',
                                  communityCards := community,
                                  currentBet_g := 0,
                                  activePlayerIndex := (if firstToAct \<ge> 0 then firstToAct else 0),
                                  lastRaiserIndex := dealerIndex state,
                                  raisesThisStreet := 0,
                                  deck := dk,
                                  streetBetSize := streetBetSize'\<rparr>))))"

definition noLegalActions :: LegalActions where
  "noLegalActions =
     \<lparr>canFold = False, canCheck = False, canCall = False, callAmount = 0, canRaise = False,
      minRaise = 0, maxRaise = 0, canAllIn = False, allInAmount = 0\<rparr>"

definition getLegalActions :: "GameState \<Rightarrow> LegalActions" where
  "getLegalActions state =
     (case arrayGet (players state) (activePlayerIndex state) of
        None \<Rightarrow> noLegalActions
      | Some player \<Rightarrow>
          if folded player \<or> allIn player then noLegalActions
          else
            let toCall = max 0 (currentBet_g state - currentBet player);
                canAffordFullRaise = (chips player \<ge> toCall + streetBetSize state);
                canRaise' = (raisesThisStreet state < maxRaisesPerStreet \<and> canAffordFullRaise)
            in \<lparr>canFold = True,
                canCheck = (toCall = 0),
                canCall = (toCall > 0 \<and> chips player \<ge> toCall),
                callAmount = min toCall (chips player),
                canRaise = canRaise',
                minRaise = streetBetSize state,
                maxRaise = streetBetSize state,
                canAllIn = (chips player > 0),
                allInAmount = chips player\<rparr>)"

text \<open>
  \<open>applyAction\<close>. \<open>pots[0].amount += x\<close> throws on an empty \<open>pots\<close> array
  (\<open>addToMainPot\<close>). \<open>moveToNextPlayer\<close> is the code after the \<open>switch\<close>, reached by
  the \<open>break\<close> of fold, check and call; raise and all-in return from inside the
  \<open>switch\<close>. The model returns the new state; the caller replaces its state by it.
\<close>

definition addToMainPot :: "Pot list \<Rightarrow> int \<Rightarrow> error + Pot list" where
  "addToMainPot pts x =
     (case pts of [] \<Rightarrow> Inl TypeError | p # rest \<Rightarrow> Inr (p\<lparr>amount := amount p + x\<rparr> # rest))"

definition moveToNextPlayer :: "GameState \<Rightarrow> Player list \<Rightarrow> Pot list \<Rightarrow> int \<Rightarrow> error + GameState" where
  "moveToNextPlayer state players' pots' playerIndex =
     (case getNextActivePlayerIndex (state\<lparr>players := players'\<rparr>) playerIndex False of
        Inl e \<Rightarrow> Inl e
      | Inr nextPlayerIndex \<Rightarrow>
          Inr (state\<lparr>players := players', pots := pots',
                     activePlayerIndex :=
                       (if nextPlayerIndex \<ge> 0 then nextPlayerIndex else playerIndex)\<rparr>))"

definition applyAction :: "GameState \<Rightarrow> string \<Rightarrow> PlayerAction \<Rightarrow> error + GameState" where
  "applyAction state playerId action =
     (let playerIndex = findIndex (\<lambda>p. pid p = playerId) (players state) in
      if playerIndex = -1 \<or> playerIndex \<noteq> activePlayerIndex state then Inr state
      else
        let player = players state ! nat playerIndex in
        case type_a action of
          Fold \<Rightarrow>
            moveToNextPlayer state
              ((players state)[nat playerIndex := player\<lparr>folded := True\<rparr>]) (pots state)
              playerIndex
        | Check \<Rightarrow> moveToNextPlayer state (players state) (pots state) playerIndex
        | Call \<Rightarrow>
            let callAmount' = min (max 0 (currentBet_g state - currentBet player)) (chips player);
                players' = (players state)[nat playerIndex :=
                              player\<lparr>chips := chips player - callAmount',
                                     currentBet := currentBet player + callAmount',
                                     totalBetThisHand := totalBetThisHand player + callAmount',
                                     allIn := (chips player - callAmount' = 0)\<rparr>]
            in (case addToMainPot (pots state) callAmount' of
                  Inl e \<Rightarrow> Inl e
                | Inr pots' \<Rightarrow> moveToNextPlayer state players' pots' playerIndex)
        | Raise \<Rightarrow>
            let callAmount' = max 0 (currentBet_g state - currentBet player);
                raiseAmount = streetBetSize state;
                totalToAdd = callAmount' + raiseAmount
            in if chips player < totalToAdd then Inr state
               else
                 let newPlayer = player\<lparr>chips := chips player - totalToAdd,
                                        currentBet := currentBet player + totalToAdd,
                                        totalBetThisHand := totalBetThisHand player + totalToAdd,
                                        allIn := (chips player - totalToAdd = 0)\<rparr>;
                     players' = (players state)[nat playerIndex := newPlayer]
                 in (case addToMainPot (pots state) totalToAdd of
                       Inl e \<Rightarrow> Inl e
                     | Inr pots' \<Rightarrow>
                         (case getNextActivePlayerIndex (state\<lparr>players := players'\<rparr>)
                                 playerIndex False of
                            Inl e \<Rightarrow> Inl e
                          | Inr next \<Rightarrow>
                              Inr (state\<lparr>players := players', pots := pots',
                                         currentBet_g := currentBet newPlayer,
                                         raisesThisStreet := raisesThisStreet state + 1,
                                         lastRaiserIndex := playerIndex,
                                         activePlayerIndex := next\<rparr>)))
        | AllIn \<Rightarrow>
            let allInAmount' = chips player;
                newPlayer = player\<lparr>chips := 0,
                                   currentBet := currentBet player + allInAmount',
                                   totalBetThisHand := totalBetThisHand player + allInAmount',
                                   allIn := True\<rparr>;
                players' = (players state)[nat playerIndex := newPlayer]
            in (case addToMainPot (pots state) allInAmount' of
                  Inl e \<Rightarrow> Inl e
                | Inr pots' \<Rightarrow>
                    let newCurrentBet = max (currentBet_g state) (currentBet newPlayer);
                        isRaise = (currentBet newPlayer > currentBet_g state)
                    in (case getNextActivePlayerIndex (state\<lparr>players := players'\<rparr>)
                               playerIndex False of
                          Inl e \<Rightarrow> Inl e
                        | Inr next \<Rightarrow>
                            Inr (state\<lparr>players := players', pots := pots',
                                       currentBet_g := newCurrentBet,
                                       raisesThisStreet :=
                                         (if isRaise then raisesThisStreet state + 1
                                          else raisesThisStreet state),
                                       lastRaiserIndex :=
                                         (if isRaise then playerIndex else lastRaiserIndex state),
                                       activePlayerIndex := next\<rparr>))))"

definition toPublicState :: "GameState \<Rightarrow> PublicGameState" where
  "toPublicState state =
     \<lparr>phase_pg = phase state,
      players_pg = map (\<lambda>p. \<lparr>id_pp = pid p, name_pp = name p, chips_pp = chips p,
                             currentBet_pp = currentBet p, folded_pp = folded p,
                             allIn_pp = allIn p, isDealer_pp = isDealer p,
                             hasCards = (length (holeCards p) > 0)\<rparr>) (players state),
      communityCards_pg = communityCards state,
      pots_pg = pots state,
      currentBet_pg = currentBet_g state,
      dealerIndex_pg = dealerIndex state,
      activePlayerIndex_pg = activePlayerIndex state,
      smallBlind_pg = smallBlind state,
      bigBlind_pg = bigBlind state\<rparr>"

section \<open>The server's validation of actions (party/server.ts)\<close>

text \<open>
  \<open>isLegalAction\<close> of the room server, which \<open>handleAction\<close> consults before it calls
  \<open>applyAction\<close>. An integer \<open>amount\<close> is always finite.
\<close>

definition isLegalAction :: "PlayerAction \<Rightarrow> LegalActions \<Rightarrow> bool" where
  "isLegalAction action legal =
     (case type_a action of
        Fold \<Rightarrow> canFold legal
      | Check \<Rightarrow> canCheck legal
      | Call \<Rightarrow> canCall legal
      | Raise \<Rightarrow>
          if \<not> canRaise legal then False
          else (case amount_a action of None \<Rightarrow> True | Some a \<Rightarrow> a = minRaise legal)
      | AllIn \<Rightarrow> canAllIn legal)"

section \<open>Test fixture (tests/game.test.ts)\<close>

definition createTestPlayer :: "string \<Rightarrow> string \<Rightarrow> int \<Rightarrow> int \<Rightarrow> Player" where
  "createTestPlayer i nm c totalBet =
     \<lparr>pid = i, name = nm, chips = c, holeCards = [], currentBet = totalBet,
      totalBetThisHand = totalBet, folded = False, allIn = False, isDealer = False,
      sessionToken = ''token_'' @ i\<rparr>"

section \<open>Auxiliary notions used in the statements and proofs\<close>

definition sumPots :: "Pot list \<Rightarrow> int" where
  "sumPots pts = sum_list (map amount pts)"

text \<open>The chips all players have put in up to the level \<open>c\<close>.\<close>

definition capped :: "Player list \<Rightarrow> int \<Rightarrow> int" where
  "capped ps c = sum_list (map (\<lambda>p. min (totalBetThisHand p) c) ps)"

text \<open>\<open>winnings.get(k) || 0\<close> and the total of a winnings map.\<close>

definition getOr0 :: "winnings \<Rightarrow> string \<Rightarrow> int" where
  "getOr0 w k = (case map_of w k of None \<Rightarrow> 0 | Some v \<Rightarrow> v)"

definition totalWon :: "winnings \<Rightarrow> int" where
  "totalWon w = sum_list (map snd w)"

text \<open>
  Two states are the same up to what is hidden when they agree on everything but the deck
  and the players' hole cards, and each player holds as many hole cards in one as in the
  other.
\<close>

definition sameUpToHidden :: "GameState \<Rightarrow> GameState \<Rightarrow> bool" where
  "sameUpToHidden s t \<longleftrightarrow>
     s\<lparr>deck := [], players := []\<rparr> = t\<lparr>deck := [], players := []\<rparr>
     \<and> list_all2 (\<lambda>p q. p\<lparr>holeCards := []\<rparr> = q\<lparr>holeCards := []\<rparr>
                         \<and> length (holeCards p) = length (holeCards q))
          (players s) (players t)"

text \<open>
  The seats that post the blinds in \<open>startNewHand\<close>: the expressions \<open>sbIndex\<close> and
  \<open>bbIndex\<close> of the source, as functions of the state the hand starts from.
\<close>

definition sbSeat :: "GameState \<Rightarrow> int" where
  "sbSeat state =
     (let n = int (length (players state));
          newDealerIndex = jsRem (dealerIndex state + 1) n
      in if n = 2 then newDealerIndex else jsRem (newDealerIndex + 1) n)"

definition bbSeat :: "GameState \<Rightarrow> int" where
  "bbSeat state =
     (let n = int (length (players state));
          newDealerIndex = jsRem (dealerIndex state + 1) n
      in if n = 2 then jsRem (newDealerIndex + 1) n else jsRem (newDealerIndex + 2) n)"

section \<open>Concrete tables used as inputs\<close>

text \<open>
  Two seated players in the lobby with the given stacks, the button on seat 1, so that the
  next hand moves it to seat 0.
\<close>

definition headsUpLobby :: "int \<Rightarrow> int \<Rightarrow> GameState" where
  "headsUpLobby c1 c2 =
     createInitialState
       \<lparr>players := [createTestPlayer ''p1'' ''Alice'' c1 0, createTestPlayer ''p2'' ''Bob'' c2 0],
        dealerIndex := 1\<rparr>"

text \<open>
  The hand dealt from \<open>headsUpLobby 2 20\<close> with the unshuffled deck, and the state after
  seat 0, who had 2 chips, has called.
\<close>

definition shortHand :: GameState where
  "shortHand =
     (headsUpLobby 2 20)
       \<lparr>phase := Preflop,
        players := [(createTestPlayer ''p1'' ''Alice'' 1 1)
                      \<lparr>holeCards := take 2 createDeck, isDealer := True\<rparr>,
                    (createTestPlayer ''p2'' ''Bob'' 18 2)
                      \<lparr>holeCards := take 2 (drop 2 createDeck)\<rparr>],
        pots := [\<lparr>amount = 3, eligiblePlayerIds = [''p1'', ''p2'']\<rparr>],
        currentBet_g := 2, dealerIndex := 0, activePlayerIndex := 0, lastRaiserIndex := 1,
        deck := drop 4 createDeck\<rparr>"

definition shortCalled :: GameState where
  "shortCalled =
     shortHand
       \<lparr>players := [(createTestPlayer ''p1'' ''Alice'' 0 2)
                      \<lparr>holeCards := take 2 createDeck, isDealer := True, allIn := True\<rparr>,
                    (createTestPlayer ''p2'' ''Bob'' 18 2)
                      \<lparr>holeCards := take 2 (drop 2 createDeck)\<rparr>],
        pots := [\<lparr>amount = 4, eligiblePlayerIds = [''p1'', ''p2'']\<rparr>],
        activePlayerIndex := 1\<rparr>"

section \<open>Events of a room\<close>

text \<open>
  \<open>handleAction\<close> of the room server, up to its call of \<open>applyAction\<close>: a sender who is
  not seated, is not the active seat, acts in the lobby or at showdown, or sends an action
  that \<open>isLegalAction\<close> refuses gets an error message and the state stays as it is.
\<close>

definition handleAction :: "GameState \<Rightarrow> string \<Rightarrow> PlayerAction \<Rightarrow> error + GameState" where
  "handleAction state sender action =
     (if \<not> list_ex (\<lambda>p. pid p = sender) (players state) then Inr state
      else if map_option pid (arrayGet (players state) (activePlayerIndex state)) \<noteq> Some sender
        then Inr state
      else if phase state = Lobby \<or> phase state = Showdown then Inr state
      else if \<not> isLegalAction action (getLegalActions state) then Inr state
      else applyAction state sender action)"

text \<open>
  The operations on a game state as events: a new hand with the outcome of the shuffle, an
  action of a player, the next street. \<open>run\<close> applies \<open>applyAction\<close> directly,
  \<open>runValidated\<close> goes through the validation of \<open>handleAction\<close>; both stop at
  the first exception.
\<close>

datatype event =
  NewHand "Card list"
| Action string PlayerAction
| NextStreet

fun step :: "GameState \<Rightarrow> event \<Rightarrow> error + GameState" where
  "step state (NewHand shuffled) = startNewHand shuffled state"
| "step state (Action playerId action) = applyAction state playerId action"
| "step state NextStreet = advanceStreet state"

fun run :: "GameState \<Rightarrow> event list \<Rightarrow> error + GameState" where
  "run state [] = Inr state"
| "run state (ev # evs) = (case step state ev of Inl e \<Rightarrow> Inl e | Inr state' \<Rightarrow> run state' evs)"

fun stepValidated :: "GameState \<Rightarrow> event \<Rightarrow> error + GameState" where
  "stepValidated state (NewHand shuffled) = startNewHand shuffled state"
| "stepValidated state (Action sender action) = handleAction state sender action"
| "stepValidated state NextStreet = advanceStreet state"

fun runValidated :: "GameState \<Rightarrow> event list \<Rightarrow> error + GameState" where
  "runValidated state [] = Inr state"
| "runValidated state (ev # evs) =
     (case stepValidated state ev of Inl e \<Rightarrow> Inl e | Inr state' \<Rightarrow> runValidated state' evs)"

fun isAllIn :: "event \<Rightarrow> bool" where
  "isAllIn (Action sender action) = (type_a action = AllIn)"
| "isAllIn _ = False"

text \<open>The lobby of the tests: two seated players with 20 chips each.\<close>

definition lobbyOfTwo :: GameState where
  "lobbyOfTwo =
     createInitialState
       \<lparr>players := [createTestPlayer ''p1'' ''Alice'' 20 0, createTestPlayer ''p2'' ''Bob'' 20 0]\<rparr>"

definition raiseAction :: PlayerAction where
  "raiseAction = \<lparr>type_a = Raise, amount_a = None\<rparr>"

definition allInAction :: PlayerAction where
  "allInAction = \<lparr>type_a = AllIn, amount_a = None\<rparr>"

text \<open>
  \<open>winnersByPot.get(i) || []\<close>, and what one pot owes a player when it is split by the
  rule of the specification: for every position \<open>j\<close> the player holds in the list of
  winners, the integer quotient of the amount by the number of winners, plus one chip
  when \<open>j\<close> is below the remainder.
\<close>

definition winnersOf :: "(nat \<rightharpoonup> string list) \<Rightarrow> nat \<Rightarrow> string list" where
  "winnersOf winnersByPot i = (case winnersByPot i of None \<Rightarrow> [] | Some ws \<Rightarrow> ws)"

definition paidBy :: "Pot \<Rightarrow> string list \<Rightarrow> string \<Rightarrow> int" where
  "paidBy pot ws k =
     (\<Sum>j<length ws.
        if ws ! j = k
        then amount pot div int (length ws)
             + (if int j < amount pot mod int (length ws) then 1 else 0)
        else 0)"

section \<open>Side-pot conservation\<close>

lemma foldl_plus_sum_list:
  "foldl (\<lambda>acc x. acc + f x) a xs = a + sum_list (map f xs)"
  by (induction xs arbitrary: a) (simp_all add: add.assoc)

lemma potAmountOf_sum_list:
  "potAmountOf ps prev c = sum_list (map (\<lambda>p. min (max 0 (totalBetThisHand p - prev)) c) ps)"
  by (simp add: potAmountOf_def foldl_plus_sum_list)

lemma potAmountOf_nonneg: "0 \<le> c \<Longrightarrow> 0 \<le> potAmountOf ps prev c"
  unfolding potAmountOf_sum_list by (rule sum_list_nonneg) auto

text \<open>One level adds exactly the chips between the previous level and this one.\<close>

lemma potAmountOf_capped:
  assumes "\<forall>p \<in> set ps. 0 \<le> totalBetThisHand p" and "0 \<le> prev" and "prev < l"
  shows "potAmountOf ps prev (l - prev) = capped ps l - capped ps prev"
  using assms(1) unfolding potAmountOf_sum_list capped_def
proof (induction ps)
  case Nil
  then show ?case by simp
next
  case (Cons p ps)
  have "min (max 0 (totalBetThisHand p - prev)) (l - prev)
        = min (totalBetThisHand p) l - min (totalBetThisHand p) prev"
    using Cons.prems assms(2,3) by auto
  with Cons show ?case by simp
qed

lemma sumPots_append: "sumPots (xs @ ys) = sumPots xs + sumPots ys"
  by (simp add: sumPots_def)

lemma sumPots_single: "sumPots [\<lparr>amount = a, eligiblePlayerIds = e\<rparr>] = a"
  by (simp add: sumPots_def)

lemma sumPots_bump_last:
  assumes "pts \<noteq> []"
  shows "sumPots (butlast pts @ [(last pts)\<lparr>amount := amount (last pts) + x\<rparr>]) = sumPots pts + x"
proof -
  have "sumPots pts = sumPots (butlast pts @ [last pts])"
    using assms by simp
  then show ?thesis by (simp add: sumPots_def)
qed

text \<open>
  The loop invariant: the pots hold what was contributed up to \<open>previousBetLevel\<close>, and
  the loop ends at the highest level seen.
\<close>

lemma potLoop_sum:
  assumes "\<forall>p \<in> set ps. 0 \<le> totalBetThisHand p" and "0 \<le> prev"
  shows "sumPots (potLoop ps act levels prev pts)
         = sumPots pts + capped ps (fold max levels prev) - capped ps prev"
  using assms(2)
proof (induction levels arbitrary: prev pts)
  case Nil
  then show ?case by simp
next
  case (Cons l levels)
  show ?case
  proof (cases "l - prev \<le> 0")
    case True
    then have "max l prev = prev" by simp
    with True Cons show ?thesis by simp
  next
    case False
    then have lt: "prev < l" and m: "max l prev = l" and l0: "0 \<le> l"
      using Cons.prems by simp_all
    have amt: "potAmountOf ps prev (l - prev) = capped ps l - capped ps prev"
      using potAmountOf_capped[OF assms(1) Cons.prems lt] .
    have nn: "0 \<le> potAmountOf ps prev (l - prev)"
      using lt by (simp add: potAmountOf_nonneg)
    define x where "x = potAmountOf ps prev (l - prev)"
    define el where "el = map fst (filter (\<lambda>p. snd p \<ge> l) act)"
    have step: "potLoop ps act (l # levels) prev pts =
        (if x > 0 \<and> length el = 0 \<and> length pts > 0 then
           potLoop ps act levels l (butlast pts @ [(last pts)\<lparr>amount := amount (last pts) + x\<rparr>])
         else if x > 0 then
           potLoop ps act levels l (pts @ [\<lparr>amount = x, eligiblePlayerIds = el\<rparr>])
         else potLoop ps act levels l pts)"
      using False by (simp add: Let_def x_def el_def)
    have x_eq: "x = capped ps l - capped ps prev" and x0: "0 \<le> x"
      using amt nn by (simp_all add: x_def)
    consider (bump) "x > 0" "length el = 0" "pts \<noteq> []"
      | (push) "x > 0" "\<not> (length el = 0 \<and> pts \<noteq> [])"
      | (none) "x = 0"
      using x0 by fastforce
    then show ?thesis
    proof cases
      case bump
      then show ?thesis
        using step Cons.IH[OF l0] x_eq m by (simp add: sumPots_bump_last)
    next
      case push
      then have "potLoop ps act (l # levels) prev pts =
          potLoop ps act levels l (pts @ [\<lparr>amount = x, eligiblePlayerIds = el\<rparr>])"
        using step by auto
      then show ?thesis
        using Cons.IH[OF l0] x_eq m by (simp add: sumPots_append sumPots_single)
    next
      case none
      then show ?thesis
        using step Cons.IH[OF l0] x_eq m by simp
    qed
  qed
qed

lemma fold_max_ge_init: "(a::int) \<le> fold max xs a"
proof (induction xs arbitrary: a)
  case Nil
  then show ?case by simp
next
  case (Cons x xs)
  have "a \<le> max x a" by simp
  also have "\<dots> \<le> fold max xs (max x a)" by (rule Cons.IH)
  finally show ?case by simp
qed

lemma fold_max_ge_elem: "(x::int) \<in> set xs \<Longrightarrow> x \<le> fold max xs a"
proof (induction xs arbitrary: a)
  case Nil
  then show ?case by simp
next
  case (Cons y ys)
  show ?case
  proof (cases "x = y")
    case True
    have "max y a \<le> fold max ys (max y a)" by (rule fold_max_ge_init)
    with True show ?thesis by simp
  next
    case False
    with Cons show ?thesis by simp
  qed
qed

lemma set_newSet: "set (newSet xs) = set xs"
  by (simp add: newSet_def)

lemma capped_zero: "\<forall>p \<in> set ps. 0 \<le> totalBetThisHand p \<Longrightarrow> capped ps 0 = 0"
  unfolding capped_def by (induction ps) auto

lemma capped_top:
  "\<forall>p \<in> set ps. totalBetThisHand p \<le> c \<Longrightarrow> capped ps c = sum_list (map totalBetThisHand ps)"
  unfolding capped_def by (induction ps) auto

text \<open>
  Claim C1, as amended. For every list of players whose \<open>totalBetThisHand\<close> values are
  not negative and of whom at least one has not folded, the amounts of the pots returned
  by \<open>calculateSidePots\<close> sum to the sum of \<open>totalBetThisHand\<close> over all the players,
  folded ones included.
\<close>

theorem calculateSidePots_conservation:
  assumes nonneg: "\<forall>p \<in> set ps. 0 \<le> totalBetThisHand p"
    and live: "\<exists>p \<in> set ps. \<not> folded p"
  shows "sum_list (map amount (calculateSidePots ps)) = sum_list (map totalBetThisHand ps)"
proof -
  define act where
    "act = sort_key snd (map (\<lambda>p. (pid p, totalBetThisHand p)) (filter (\<lambda>p. \<not> folded p) ps))"
  define levels where
    "levels = sort (newSet (filter (\<lambda>bet. bet > 0) (map totalBetThisHand ps)))"
  define pts where "pts = potLoop ps act levels 0 []"
  have "filter (\<lambda>p. \<not> folded p) ps \<noteq> []"
    using live by (auto simp: filter_empty_conv)
  then have act_ne: "length act \<noteq> 0"
    by (simp add: act_def)
  have top: "\<forall>p \<in> set ps. totalBetThisHand p \<le> fold max levels 0"
  proof
    fix p assume p: "p \<in> set ps"
    show "totalBetThisHand p \<le> fold max levels 0"
    proof (cases "0 < totalBetThisHand p")
      case True
      with p have "totalBetThisHand p \<in> set levels"
        by (auto simp: levels_def set_newSet)
      then show ?thesis by (rule fold_max_ge_elem)
    next
      case False
      then have "totalBetThisHand p \<le> 0" by simp
      also have "0 \<le> fold max levels 0" by (rule fold_max_ge_init)
      finally show ?thesis .
    qed
  qed
  have "sumPots pts = sumPots [] + capped ps (fold max levels 0) - capped ps 0"
    unfolding pts_def using nonneg by (intro potLoop_sum) simp_all
  then have sum_pts: "sumPots pts = sum_list (map totalBetThisHand ps)"
    using capped_zero[OF nonneg] capped_top[OF top] by (simp add: sumPots_def)
  have res: "calculateSidePots ps =
      (if length pts = 0
       then [\<lparr>amount = 0, eligiblePlayerIds = map pid (filter (\<lambda>p. \<not> folded p) ps)\<rparr>]
       else pts)"
    using act_ne
    unfolding calculateSidePots_def Let_def act_def[symmetric] levels_def[symmetric]
      pts_def[symmetric]
    by simp
  show ?thesis
  proof (cases "length pts = 0")
    case True
    then have "sumPots pts = 0" by (simp add: sumPots_def)
    with True res sum_pts show ?thesis by simp
  next
    case False
    with res sum_pts show ?thesis by (simp add: sumPots_def)
  qed
qed

text \<open>
  The theorem at the players of the accounting test: two live players at 50 and a folded
  player at 100.
\<close>

theorem calculateSidePots_conservation_witness:
  "list_all (\<lambda>p. 0 \<le> totalBetThisHand p)
     [createTestPlayer ''p1'' ''Alice'' 0 50, createTestPlayer ''p2'' ''Bob'' 0 50,
      (createTestPlayer ''p3'' ''Charlie'' 0 100)\<lparr>folded := True\<rparr>]
   \<and> list_ex (\<lambda>p. \<not> folded p)
     [createTestPlayer ''p1'' ''Alice'' 0 50, createTestPlayer ''p2'' ''Bob'' 0 50,
      (createTestPlayer ''p3'' ''Charlie'' 0 100)\<lparr>folded := True\<rparr>]
   \<and> sum_list (map amount (calculateSidePots
         [createTestPlayer ''p1'' ''Alice'' 0 50, createTestPlayer ''p2'' ''Bob'' 0 50,
          (createTestPlayer ''p3'' ''Charlie'' 0 100)\<lparr>folded := True\<rparr>])) = 200"
  using calculateSidePots_conservation
    [of "[createTestPlayer ''p1'' ''Alice'' 0 50, createTestPlayer ''p2'' ''Bob'' 0 50,
          (createTestPlayer ''p3'' ''Charlie'' 0 100)\<lparr>folded := True\<rparr>]"]
  by (simp add: createTestPlayer_def)

text \<open>
  Claim C1 as stated fails when every player has folded: two folded players who put in
  1 and 2 chips get back a single pot of amount 0.
\<close>

theorem calculateSidePots_conservation_counterexample:
  "sum_list (map amount (calculateSidePots
       [(createTestPlayer ''p1'' ''Alice'' 19 1)\<lparr>folded := True\<rparr>,
        (createTestPlayer ''p2'' ''Bob'' 18 2)\<lparr>folded := True\<rparr>]))
   \<noteq> sum_list (map totalBetThisHand
       [(createTestPlayer ''p1'' ''Alice'' 19 1)\<lparr>folded := True\<rparr>,
        (createTestPlayer ''p2'' ''Bob'' 18 2)\<lparr>folded := True\<rparr>])"
  by (simp add: calculateSidePots_def createTestPlayer_def)

section \<open>Everyone folded\<close>

text \<open>
  Claim C4, as amended. If every player in the input list has folded,
  \<open>calculateSidePots\<close> returns one pot of amount 0 with no eligible player.
\<close>

theorem calculateSidePots_all_folded:
  assumes "list_all folded ps"
  shows "calculateSidePots ps = [\<lparr>amount = 0, eligiblePlayerIds = []\<rparr>]"
proof -
  have "filter (\<lambda>p. \<not> folded p) ps = []"
    using assms by (simp add: filter_empty_conv list_all_iff)
  then show ?thesis by (simp add: calculateSidePots_def)
qed

theorem calculateSidePots_all_folded_witness:
  "list_all folded [(createTestPlayer ''p1'' ''Alice'' 15 5)\<lparr>folded := True\<rparr>]
   \<and> calculateSidePots [(createTestPlayer ''p1'' ''Alice'' 15 5)\<lparr>folded := True\<rparr>]
       = [\<lparr>amount = 0, eligiblePlayerIds = []\<rparr>]"
  using calculateSidePots_all_folded
    [of "[(createTestPlayer ''p1'' ''Alice'' 15 5)\<lparr>folded := True\<rparr>]"]
  by (simp add: createTestPlayer_def)

text \<open>
  Claim C4 as stated fails: in a game state whose two players have both folded and whose
  pot holds their 7 chips, the calculator does not return that pot.
\<close>

theorem calculateSidePots_all_folded_counterexample:
  "list_all folded
     (players (createInitialState
        \<lparr>players := [(createTestPlayer ''p1'' ''Alice'' 17 3)\<lparr>folded := True\<rparr>,
                     (createTestPlayer ''p2'' ''Bob'' 16 4)\<lparr>folded := True\<rparr>],
         pots := [\<lparr>amount = 7, eligiblePlayerIds = [''p1'', ''p2'']\<rparr>]\<rparr>))
   \<and> calculateSidePots
       (players (createInitialState
          \<lparr>players := [(createTestPlayer ''p1'' ''Alice'' 17 3)\<lparr>folded := True\<rparr>,
                       (createTestPlayer ''p2'' ''Bob'' 16 4)\<lparr>folded := True\<rparr>],
           pots := [\<lparr>amount = 7, eligiblePlayerIds = [''p1'', ''p2'']\<rparr>]\<rparr>))
     \<noteq> pots (createInitialState
          \<lparr>players := [(createTestPlayer ''p1'' ''Alice'' 17 3)\<lparr>folded := True\<rparr>,
                       (createTestPlayer ''p2'' ''Bob'' 16 4)\<lparr>folded := True\<rparr>],
           pots := [\<lparr>amount = 7, eligiblePlayerIds = [''p1'', ''p2'']\<rparr>]\<rparr>)"
  by (simp add: calculateSidePots_def createTestPlayer_def createInitialState_def)

section \<open>The side-pot example\<close>

text \<open>
  Claim C5. For A all-in at 50, B at 100 and not all-in, C all-in at 100, none folded,
  \<open>calculateSidePots\<close> returns exactly two pots: 150 for A, B and C, and 100 for B and C.
\<close>

theorem calculateSidePots_example:
  "calculateSidePots
     [(createTestPlayer ''A'' ''Alice'' 0 50)\<lparr>allIn := True\<rparr>,
      (createTestPlayer ''B'' ''Bob'' 50 100)\<lparr>allIn := False\<rparr>,
      (createTestPlayer ''C'' ''Charlie'' 0 100)\<lparr>allIn := True\<rparr>]
   = [\<lparr>amount = 150, eligiblePlayerIds = [''A'', ''B'', ''C'']\<rparr>,
      \<lparr>amount = 100, eligiblePlayerIds = [''B'', ''C'']\<rparr>]"
  by (simp add: calculateSidePots_def createTestPlayer_def newSet_def potAmountOf_def)

section \<open>Splitting a pot\<close>

lemma jsRem_nonneg: "0 \<le> a \<Longrightarrow> 0 < n \<Longrightarrow> jsRem a n = a mod n"
  by (cases "a = 0") (simp_all add: jsRem_def)

lemma totalWon_update:
  "distinct (map fst w) \<Longrightarrow> totalWon (AList.update k (getOr0 w k + a) w) = totalWon w + a"
proof (induction w)
  case Nil
  then show ?case by (simp add: totalWon_def getOr0_def)
next
  case (Cons p w)
  show ?case
  proof (cases "fst p = k")
    case True
    then have "getOr0 (p # w) k = snd p" by (cases p) (simp add: getOr0_def)
    with True show ?thesis by (simp add: totalWon_def)
  next
    case False
    then have "getOr0 (p # w) k = getOr0 w k" by (cases p) (auto simp add: getOr0_def)
    with False Cons show ?thesis by (simp add: totalWon_def)
  qed
qed

text \<open>
  The inner loop hands out \<open>share\<close> to each winner and one more chip to those whose
  position is below \<open>remainder\<close>.
\<close>

lemma awardWinners_total:
  "distinct (map fst w) \<Longrightarrow>
   distinct (map fst (awardWinners ws share r j w)) \<and>
   totalWon (awardWinners ws share r j w)
     = totalWon w + int (length ws) * share
       + int (length (filter (\<lambda>i. int i < r) [j..<j + length ws]))"
proof (induction ws arbitrary: j w)
  case Nil
  then show ?case by simp
next
  case (Cons k ws)
  let ?a = "share + (if int j < r then 1 else 0)"
  let ?w = "AList.update k (getOr0 w k + ?a) w"
  have d: "distinct (map fst ?w)" using Cons.prems by (simp add: distinct_update)
  have t: "totalWon ?w = totalWon w + ?a" using Cons.prems by (rule totalWon_update)
  have u: "[j..<j + length (k # ws)] = j # [Suc j..<Suc j + length ws]"
    by (subst upt_rec) simp
  have s: "awardWinners (k # ws) share r j w = awardWinners ws share r (Suc j) ?w"
    by (simp add: getOr0_def)
  show ?case
    unfolding s u using Cons.IH[OF d, of "Suc j"] t by (simp add: algebra_simps)
qed

lemma length_filter_less: "length (filter (\<lambda>i. int i < r) [0..<n]) = min (nat r) n"
  by (induction n) auto

lemma getOr0_update:
  "getOr0 (AList.update k' v w) k = (if k = k' then v else getOr0 w k)"
  by (simp add: getOr0_def update_conv')

text \<open>What the inner loop adds to the winnings of a player.\<close>

lemma awardWinners_getOr0:
  "getOr0 (awardWinners ws share r j0 w) k
   = getOr0 w k
     + (\<Sum>j<length ws. if ws ! j = k then share + (if int (j0 + j) < r then 1 else 0) else 0)"
proof (induction ws arbitrary: j0 w)
  case Nil
  then show ?case by simp
next
  case (Cons x ws)
  let ?amt = "share + (if int j0 < r then 1 else 0)"
  let ?w = "AList.update x (getOr0 w x + ?amt) w"
  have s: "awardWinners (x # ws) share r j0 w = awardWinners ws share r (Suc j0) ?w"
    by (simp add: getOr0_def)
  let ?rest = "\<Sum>j<length ws.
      if ws ! j = k then share + (if int (Suc j0 + j) < r then 1 else 0) else 0"
  have "getOr0 (awardWinners (x # ws) share r j0 w) k = getOr0 ?w k + ?rest"
    unfolding s by (rule Cons.IH)
  also have "getOr0 ?w k = getOr0 w k + (if x = k then ?amt else 0)"
    by (auto simp: getOr0_update)
  finally have lhs: "getOr0 (awardWinners (x # ws) share r j0 w) k
      = getOr0 w k + ((if x = k then ?amt else 0) + ?rest)"
    by (simp only: add.assoc)
  have rhs: "(\<Sum>j<length (x # ws).
        if (x # ws) ! j = k then share + (if int (j0 + j) < r then 1 else 0) else 0)
      = (if x = k then ?amt else 0) + ?rest"
    by (simp add: sum.lessThan_Suc_shift add_ac del: sum.lessThan_Suc cong: if_cong)
  show ?case unfolding lhs rhs by (rule refl)
qed

lemma awardWinners_keys:
  "fst ` set (awardWinners ws share r j0 w) = fst ` set w \<union> set ws"
  by (induction ws arbitrary: j0 w) (auto simp: dom_update Let_def)

lemma awardWinners_pot:
  assumes "ws \<noteq> []" and "0 \<le> amount pot"
  shows "getOr0 (awardWinners ws (amount pot div int (length ws))
                   (jsRem (amount pot) (int (length ws))) 0 w) k
         = getOr0 w k + paidBy pot ws k"
proof -
  have "jsRem (amount pot) (int (length ws)) = amount pot mod int (length ws)"
    using assms by (intro jsRem_nonneg) simp_all
  then show ?thesis
    by (simp add: awardWinners_getOr0 paidBy_def cong: if_cong)
qed

lemma paidBy_Nil: "paidBy pot [] k = 0"
  by (simp add: paidBy_def)

lemma awardLoop_step:
  "awardLoop (pot # rest) winnersByPot i w =
     (if winnersOf winnersByPot i = [] then awardLoop rest winnersByPot (Suc i) w
      else awardLoop rest winnersByPot (Suc i)
             (awardWinners (winnersOf winnersByPot i)
                (amount pot div int (length (winnersOf winnersByPot i)))
                (jsRem (amount pot) (int (length (winnersOf winnersByPot i)))) 0 w))"
  by (simp add: winnersOf_def Let_def)

text \<open>The outer loop: every pot of the list pays, on top of what was won before.\<close>

lemma awardLoop_getOr0:
  assumes "\<forall>pot \<in> set pts. 0 \<le> amount pot"
  shows "getOr0 (awardLoop pts winnersByPot i0 w) k
         = getOr0 w k + (\<Sum>i<length pts. paidBy (pts ! i) (winnersOf winnersByPot (i0 + i)) k)"
  using assms
proof (induction pts arbitrary: i0 w)
  case Nil
  then show ?case by simp
next
  case (Cons pot rest)
  have rest: "\<forall>pot \<in> set rest. 0 \<le> amount pot" and a: "0 \<le> amount pot"
    using Cons.prems by simp_all
  let ?ws = "winnersOf winnersByPot i0"
  have head: "getOr0 (awardLoop (pot # rest) winnersByPot i0 w) k
      = getOr0 w k + paidBy pot ?ws k
        + (\<Sum>i<length rest. paidBy (rest ! i) (winnersOf winnersByPot (Suc i0 + i)) k)"
  proof (cases "?ws = []")
    case True
    then show ?thesis
      using Cons.IH[OF rest, of "Suc i0" w]
      by (simp add: awardLoop_step paidBy_Nil del: awardLoop.simps)
  next
    case False
    let ?w = "awardWinners ?ws (amount pot div int (length ?ws))
                (jsRem (amount pot) (int (length ?ws))) 0 w"
    have "getOr0 (awardLoop (pot # rest) winnersByPot i0 w) k
        = getOr0 ?w k
          + (\<Sum>i<length rest. paidBy (rest ! i) (winnersOf winnersByPot (Suc i0 + i)) k)"
      using False Cons.IH[OF rest, of "Suc i0" ?w]
      by (simp add: awardLoop_step del: awardLoop.simps)
    then show ?thesis
      by (simp add: awardWinners_pot[OF False a])
  qed
  show ?case
    unfolding head by (simp add: sum.lessThan_Suc_shift del: sum.lessThan_Suc)
qed

lemma awardLoop_keys:
  "fst ` set (awardLoop pts winnersByPot i0 w)
   = fst ` set w \<union> (\<Union>i<length pts. set (winnersOf winnersByPot (i0 + i)))"
proof (induction pts arbitrary: i0 w)
  case Nil
  then show ?case by simp
next
  case (Cons pot rest)
  have split: "(\<Union>i<length (pot # rest). set (winnersOf winnersByPot (i0 + i)))
      = set (winnersOf winnersByPot i0)
        \<union> (\<Union>i<length rest. set (winnersOf winnersByPot (Suc i0 + i)))"
    by (auto simp: lessThan_Suc_eq_insert_0)
  show ?case
    unfolding split
    by (cases "winnersOf winnersByPot i0 = []")
      (auto simp: awardLoop_step Cons.IH awardWinners_keys simp del: awardLoop.simps)
qed

lemma shares_sum:
  assumes "0 < n" and "0 \<le> a"
  shows "(\<Sum>j<n. a div int n + (if int j < a mod int n then 1 else 0)) = a"
proof -
  have r: "0 \<le> a mod int n" "a mod int n < int n" using assms(1) by simp_all
  have "(\<Sum>j<n. (if int j < a mod int n then 1 else 0 :: int)) = a mod int n"
  proof -
    have "(\<Sum>j<n. (if int j < a mod int n then 1 else 0 :: int))
        = int (card {j. j < n \<and> int j < a mod int n})"
      by (simp add: sum.If_cases Int_def lessThan_def)
    also have "{j. j < n \<and> int j < a mod int n} = {..<nat (a mod int n)}"
      using r by auto
    finally show ?thesis using r by simp
  qed
  then have "(\<Sum>j<n. a div int n + (if int j < a mod int n then 1 else 0))
      = int n * (a div int n) + a mod int n"
    by (simp add: sum.distrib)
  then show ?thesis by simp
qed

lemma awardLoop_total:
  assumes "\<forall>pot \<in> set pts. 0 \<le> amount pot" and "distinct (map fst w)"
  shows "distinct (map fst (awardLoop pts winnersByPot i0 w))
         \<and> totalWon (awardLoop pts winnersByPot i0 w)
           = totalWon w
             + (\<Sum>i<length pts. if winnersOf winnersByPot (i0 + i) = [] then 0
                                 else amount (pts ! i))"
  using assms
proof (induction pts arbitrary: i0 w)
  case Nil
  then show ?case by simp
next
  case (Cons pot rest)
  have rest: "\<forall>pot \<in> set rest. 0 \<le> amount pot" and a: "0 \<le> amount pot"
    using Cons.prems by simp_all
  let ?ws = "winnersOf winnersByPot i0"
  show ?case
  proof (cases "?ws = []")
    case True
    then show ?thesis
      using Cons.IH[OF rest Cons.prems(2), of "Suc i0"]
      by (simp add: awardLoop_step sum.lessThan_Suc_shift
          del: awardLoop.simps sum.lessThan_Suc cong: if_cong)
  next
    case False
    let ?n = "int (length ?ws)"
    let ?w = "awardWinners ?ws (amount pot div ?n) (jsRem (amount pot) ?n) 0 w"
    have n0: "0 < ?n" using False by simp
    have r: "jsRem (amount pot) ?n = amount pot mod ?n"
      using a n0 by (rule jsRem_nonneg)
    have rb: "0 \<le> amount pot mod ?n" "amount pot mod ?n < ?n" using n0 by simp_all
    then have m: "min (nat (amount pot mod ?n)) (length ?ws) = nat (amount pot mod ?n)"
      by linarith
    from awardWinners_total[OF Cons.prems(2), of ?ws "amount pot div ?n" "amount pot mod ?n" 0]
    have d: "distinct (map fst ?w)"
      and "totalWon ?w = totalWon w + ?n * (amount pot div ?n) + amount pot mod ?n"
      using rb by (simp_all add: r length_filter_less m)
    then have t: "totalWon ?w = totalWon w + amount pot" by simp
    from Cons.IH[OF rest d, of "Suc i0"] t False show ?thesis
      by (simp add: awardLoop_step sum.lessThan_Suc_shift
          del: awardLoop.simps sum.lessThan_Suc cong: if_cong)
  qed
qed

lemma paidBy_distinct:
  assumes "distinct ws" and "j < length ws"
  shows "paidBy pot ws (ws ! j)
         = amount pot div int (length ws)
           + (if int j < amount pot mod int (length ws) then 1 else 0)"
proof -
  have "(ws ! i = ws ! j) = (i = j)" if "i < length ws" for i
    using assms that by (simp add: nth_eq_iff_index_eq)
  then have "paidBy pot ws (ws ! j)
      = (\<Sum>i<length ws.
           if i = j then amount pot div int (length ws)
                         + (if int i < amount pot mod int (length ws) then 1 else 0)
           else 0)"
    unfolding paidBy_def by (intro sum.cong) auto
  also have "\<dots> = amount pot div int (length ws)
           + (if int j < amount pot mod int (length ws) then 1 else 0)"
    using assms(2) by (simp add: sum.delta)
  finally show ?thesis .
qed

text \<open>
  Claim C6. For any list of pots with non-negative amounts and any winners per pot:
  \<^item> what \<open>awardPots\<close> gives a player is the sum, over all the pots, of what each pot
    owes that player: for every position \<open>j\<close> the player holds among the \<open>n\<close> winners of
    a pot, the quotient \<open>amount div n\<close>, plus one chip when \<open>j\<close> is below \<open>amount mod n\<close>;
  \<^item> among distinct winners of a pot, the one at position \<open>j\<close> is owed exactly that
    share by that pot;
  \<^item> the shares of a pot with winners sum to the amount of the pot, and the winnings
    sum to the amounts of the pots that have winners;
  \<^item> only winners appear in the winnings;
  \<^item> a pot of 100 between two winners gives 50 and 50, a pot of 101 gives 51 to the
    first and 50 to the second.
\<close>

theorem awardPots_split:
  assumes nonneg: "\<forall>pot \<in> set pts. 0 \<le> amount pot"
  shows "(\<forall>k. getOr0 (awardPots pts winnersByPot) k
               = (\<Sum>i<length pts. paidBy (pts ! i) (winnersOf winnersByPot i) k))
         \<and> (\<forall>i<length pts. \<forall>j<length (winnersOf winnersByPot i).
               distinct (winnersOf winnersByPot i) \<longrightarrow>
               paidBy (pts ! i) (winnersOf winnersByPot i) (winnersOf winnersByPot i ! j)
               = amount (pts ! i) div int (length (winnersOf winnersByPot i))
                 + (if int j < amount (pts ! i) mod int (length (winnersOf winnersByPot i))
                    then 1 else 0))
         \<and> (\<forall>i<length pts. winnersOf winnersByPot i \<noteq> [] \<longrightarrow>
               (\<Sum>j<length (winnersOf winnersByPot i).
                   amount (pts ! i) div int (length (winnersOf winnersByPot i))
                   + (if int j < amount (pts ! i) mod int (length (winnersOf winnersByPot i))
                      then 1 else 0))
               = amount (pts ! i))
         \<and> totalWon (awardPots pts winnersByPot)
             = (\<Sum>i<length pts. if winnersOf winnersByPot i = [] then 0 else amount (pts ! i))
         \<and> fst ` set (awardPots pts winnersByPot)
             = (\<Union>i<length pts. set (winnersOf winnersByPot i))
         \<and> awardPots [\<lparr>amount = 100, eligiblePlayerIds = [''p1'', ''p2'']\<rparr>]
              [0 \<mapsto> [''p1'', ''p2'']] = [(''p1'', 50), (''p2'', 50)]
         \<and> awardPots [\<lparr>amount = 101, eligiblePlayerIds = [''p1'', ''p2'']\<rparr>]
              [0 \<mapsto> [''p1'', ''p2'']] = [(''p1'', 51), (''p2'', 50)]"
proof -
  have each: "\<forall>k. getOr0 (awardPots pts winnersByPot) k
               = (\<Sum>i<length pts. paidBy (pts ! i) (winnersOf winnersByPot i) k)"
    using awardLoop_getOr0[OF nonneg, of winnersByPot 0 "[]"]
    by (simp add: awardPots_def getOr0_def)
  have share: "\<forall>i<length pts. \<forall>j<length (winnersOf winnersByPot i).
               distinct (winnersOf winnersByPot i) \<longrightarrow>
               paidBy (pts ! i) (winnersOf winnersByPot i) (winnersOf winnersByPot i ! j)
               = amount (pts ! i) div int (length (winnersOf winnersByPot i))
                 + (if int j < amount (pts ! i) mod int (length (winnersOf winnersByPot i))
                    then 1 else 0)"
    by (simp add: paidBy_distinct)
  have whole: "\<forall>i<length pts. winnersOf winnersByPot i \<noteq> [] \<longrightarrow>
               (\<Sum>j<length (winnersOf winnersByPot i).
                   amount (pts ! i) div int (length (winnersOf winnersByPot i))
                   + (if int j < amount (pts ! i) mod int (length (winnersOf winnersByPot i))
                      then 1 else 0))
               = amount (pts ! i)"
    using nonneg by (auto intro!: shares_sum)
  have tot: "totalWon (awardPots pts winnersByPot)
             = (\<Sum>i<length pts. if winnersOf winnersByPot i = [] then 0 else amount (pts ! i))"
    using awardLoop_total[OF nonneg, of "[]" winnersByPot 0]
    by (simp add: awardPots_def totalWon_def)
  have keys: "fst ` set (awardPots pts winnersByPot)
             = (\<Union>i<length pts. set (winnersOf winnersByPot i))"
    using awardLoop_keys[of pts winnersByPot 0 "[]"] by (simp add: awardPots_def)
  have e100: "awardPots [\<lparr>amount = 100, eligiblePlayerIds = [''p1'', ''p2'']\<rparr>]
      [0 \<mapsto> [''p1'', ''p2'']] = [(''p1'', 50), (''p2'', 50)]"
    by (simp add: awardPots_def jsRem_def)
  have e101: "awardPots [\<lparr>amount = 101, eligiblePlayerIds = [''p1'', ''p2'']\<rparr>]
      [0 \<mapsto> [''p1'', ''p2'']] = [(''p1'', 51), (''p2'', 50)]"
    by (simp add: awardPots_def jsRem_def)
  from each share whole tot keys e100 e101 show ?thesis by (intro conjI)
qed

text \<open>
  The theorem at a main pot of 150 won by A alone and a side pot of 101 split between B
  and C: A gets 150, B gets 51, C gets 50, and the 251 chips are all paid out.
\<close>

theorem awardPots_split_witness:
  "list_all (\<lambda>pot. 0 \<le> amount pot)
     [\<lparr>amount = 150, eligiblePlayerIds = [''A'', ''B'', ''C'']\<rparr>,
      \<lparr>amount = 101, eligiblePlayerIds = [''B'', ''C'']\<rparr>]
   \<and> getOr0 (awardPots [\<lparr>amount = 150, eligiblePlayerIds = [''A'', ''B'', ''C'']\<rparr>,
                         \<lparr>amount = 101, eligiblePlayerIds = [''B'', ''C'']\<rparr>]
               [0 \<mapsto> [''A''], 1 \<mapsto> [''B'', ''C'']]) ''A'' = 150
   \<and> getOr0 (awardPots [\<lparr>amount = 150, eligiblePlayerIds = [''A'', ''B'', ''C'']\<rparr>,
                         \<lparr>amount = 101, eligiblePlayerIds = [''B'', ''C'']\<rparr>]
               [0 \<mapsto> [''A''], 1 \<mapsto> [''B'', ''C'']]) ''B'' = 51
   \<and> getOr0 (awardPots [\<lparr>amount = 150, eligiblePlayerIds = [''A'', ''B'', ''C'']\<rparr>,
                         \<lparr>amount = 101, eligiblePlayerIds = [''B'', ''C'']\<rparr>]
               [0 \<mapsto> [''A''], 1 \<mapsto> [''B'', ''C'']]) ''C'' = 50
   \<and> totalWon (awardPots [\<lparr>amount = 150, eligiblePlayerIds = [''A'', ''B'', ''C'']\<rparr>,
                           \<lparr>amount = 101, eligiblePlayerIds = [''B'', ''C'']\<rparr>]
                 [0 \<mapsto> [''A''], 1 \<mapsto> [''B'', ''C'']]) = 251"
proof -
  let ?pts = "[\<lparr>amount = 150, eligiblePlayerIds = [''A'', ''B'', ''C'']\<rparr>,
               \<lparr>amount = 101, eligiblePlayerIds = [''B'', ''C'']\<rparr>]"
  let ?wbp = "[0 \<mapsto> [''A''], 1 \<mapsto> [''B'', ''C'']]"
  have h: "\<forall>pot \<in> set ?pts. 0 \<le> amount pot" by simp
  note t = awardPots_split[OF h, of ?wbp]
  have ev: "{..<2::nat} = {0, 1}" by auto
  have "getOr0 (awardPots ?pts ?wbp) ''A'' = 150"
    using conjunct1[OF t, rule_format, of "''A''"]
    by (simp add: paidBy_def winnersOf_def ev)
  moreover have "getOr0 (awardPots ?pts ?wbp) ''B'' = 51"
    using conjunct1[OF t, rule_format, of "''B''"]
    by (simp add: paidBy_def winnersOf_def ev)
  moreover have "getOr0 (awardPots ?pts ?wbp) ''C'' = 50"
    using conjunct1[OF t, rule_format, of "''C''"]
    by (simp add: paidBy_def winnersOf_def ev)
  moreover have "totalWon (awardPots ?pts ?wbp) = 251"
    using conjunct1[OF conjunct2[OF conjunct2[OF conjunct2[OF t]]]]
    by (simp add: winnersOf_def ev)
  ultimately show ?thesis by simp
qed

section \<open>Acting out of turn\<close>

lemma findIndexFrom_found:
  "0 \<le> i \<Longrightarrow>
   findIndexFrom P xs i = -1
   \<or> (i \<le> findIndexFrom P xs i \<and> findIndexFrom P xs i < i + int (length xs)
      \<and> P (xs ! nat (findIndexFrom P xs i - i)))"
proof (induction xs arbitrary: i)
  case Nil
  then show ?case by simp
next
  case (Cons x xs)
  show ?case
  proof (cases "P x")
    case True
    then show ?thesis using Cons.prems by simp
  next
    case False
    have i1: "0 \<le> i + 1" using Cons.prems by simp
    from Cons.IH[OF i1] show ?thesis
    proof
      assume "findIndexFrom P xs (i + 1) = -1"
      with False show ?thesis by simp
    next
      assume a: "i + 1 \<le> findIndexFrom P xs (i + 1)
        \<and> findIndexFrom P xs (i + 1) < i + 1 + int (length xs)
        \<and> P (xs ! nat (findIndexFrom P xs (i + 1) - (i + 1)))"
      let ?r = "findIndexFrom P xs (i + 1)"
      have "nat (?r - i) = Suc (nat (?r - (i + 1)))" using a by linarith
      with a False show ?thesis by simp
    qed
  qed
qed

lemma findIndex_found:
  "findIndex P xs \<noteq> -1 \<Longrightarrow> \<exists>x. arrayGet xs (findIndex P xs) = Some x \<and> P x"
  using findIndexFrom_found[of 0 P xs] by (auto simp: findIndex_def arrayGet_def)

text \<open>
  Claim C7. If the seat at \<open>activePlayerIndex\<close> does not exist or does not carry the
  given player id (in particular when no seat carries it), \<open>applyAction\<close> returns the
  state it was given, whatever the action.
\<close>

theorem applyAction_not_active:
  assumes "map_option pid (arrayGet (players state) (activePlayerIndex state)) \<noteq> Some playerId"
  shows "applyAction state playerId action = Inr state"
proof -
  let ?i = "findIndex (\<lambda>p. pid p = playerId) (players state)"
  have "?i = -1 \<or> ?i \<noteq> activePlayerIndex state"
  proof (rule ccontr)
    assume "\<not> (?i = -1 \<or> ?i \<noteq> activePlayerIndex state)"
    then have ne: "?i \<noteq> -1" and eq: "?i = activePlayerIndex state" by simp_all
    from findIndex_found[OF ne] obtain x
      where "arrayGet (players state) ?i = Some x" and "pid x = playerId" by blast
    with eq assms show False by simp
  qed
  then show ?thesis by (auto simp: applyAction_def Let_def)
qed

theorem applyAction_not_active_witness:
  "map_option pid
     (arrayGet (players (createInitialState
          \<lparr>players := [createTestPlayer ''p1'' ''Alice'' 19 1, createTestPlayer ''p2'' ''Bob'' 18 2],
           activePlayerIndex := 0\<rparr>))
        (activePlayerIndex (createInitialState
          \<lparr>players := [createTestPlayer ''p1'' ''Alice'' 19 1, createTestPlayer ''p2'' ''Bob'' 18 2],
           activePlayerIndex := 0\<rparr>)))
     \<noteq> Some ''p2''
   \<and> applyAction
       (createInitialState
          \<lparr>players := [createTestPlayer ''p1'' ''Alice'' 19 1, createTestPlayer ''p2'' ''Bob'' 18 2],
           activePlayerIndex := 0\<rparr>)
       ''p2'' \<lparr>type_a = AllIn, amount_a = None\<rparr>
     = Inr (createInitialState
          \<lparr>players := [createTestPlayer ''p1'' ''Alice'' 19 1, createTestPlayer ''p2'' ''Bob'' 18 2],
           activePlayerIndex := 0\<rparr>)"
proof -
  let ?s = "createInitialState
          \<lparr>players := [createTestPlayer ''p1'' ''Alice'' 19 1, createTestPlayer ''p2'' ''Bob'' 18 2],
           activePlayerIndex := 0\<rparr>"
  have h: "map_option pid (arrayGet (players ?s) (activePlayerIndex ?s)) \<noteq> Some ''p2''"
    by (simp add: arrayGet_def createTestPlayer_def)
  from h applyAction_not_active[OF h] show ?thesis by simp
qed

section \<open>Too few players\<close>

text \<open>
  Claim C10. With fewer than \<open>minPlayers\<close> (2) seated players, \<open>startNewHand\<close> returns
  the state it was given, whatever the shuffle.
\<close>

theorem startNewHand_too_few:
  assumes "int (length (players state)) < minPlayers"
  shows "startNewHand shuffled state = Inr state"
  using assms by (simp add: startNewHand_def)

theorem startNewHand_too_few_witness:
  "int (length (players (createInitialState
       \<lparr>players := [createTestPlayer ''p1'' ''Alice'' 20 0], dealerIndex := 0\<rparr>))) < minPlayers
   \<and> startNewHand createDeck
       (createInitialState\<lparr>players := [createTestPlayer ''p1'' ''Alice'' 20 0], dealerIndex := 0\<rparr>)
     = Inr (createInitialState
         \<lparr>players := [createTestPlayer ''p1'' ''Alice'' 20 0], dealerIndex := 0\<rparr>)"
proof -
  let ?s = "createInitialState\<lparr>players := [createTestPlayer ''p1'' ''Alice'' 20 0], dealerIndex := 0\<rparr>"
  have h: "int (length (players ?s)) < minPlayers" by (simp add: minPlayers_def)
  from h startNewHand_too_few[OF h] show ?thesis by simp
qed

section \<open>The public projection\<close>

lemma publicPlayers_hidden:
  assumes "list_all2 (\<lambda>p q. p\<lparr>holeCards := []\<rparr> = q\<lparr>holeCards := []\<rparr>
                         \<and> length (holeCards p) = length (holeCards q)) ps qs"
  shows "map (\<lambda>p. \<lparr>id_pp = pid p, name_pp = name p, chips_pp = chips p,
                    currentBet_pp = currentBet p, folded_pp = folded p,
                    allIn_pp = allIn p, isDealer_pp = isDealer p,
                    hasCards = (length (holeCards p) > 0)\<rparr>) ps
       = map (\<lambda>p. \<lparr>id_pp = pid p, name_pp = name p, chips_pp = chips p,
                    currentBet_pp = currentBet p, folded_pp = folded p,
                    allIn_pp = allIn p, isDealer_pp = isDealer p,
                    hasCards = (length (holeCards p) > 0)\<rparr>) qs"
  using assms
proof (induction rule: list_all2_induct)
  case Nil
  then show ?case by simp
next
  case (Cons p ps q qs)
  from Cons.hyps(1) have e: "p\<lparr>holeCards := []\<rparr> = q\<lparr>holeCards := []\<rparr>"
    and l: "length (holeCards p) = length (holeCards q)" by simp_all
  have "pid p = pid (p\<lparr>holeCards := []\<rparr>)" "name p = name (p\<lparr>holeCards := []\<rparr>)"
    "chips p = chips (p\<lparr>holeCards := []\<rparr>)" "currentBet p = currentBet (p\<lparr>holeCards := []\<rparr>)"
    "folded p = folded (p\<lparr>holeCards := []\<rparr>)" "allIn p = allIn (p\<lparr>holeCards := []\<rparr>)"
    "isDealer p = isDealer (p\<lparr>holeCards := []\<rparr>)"
    by simp_all
  then have "pid p = pid q" "name p = name q" "chips p = chips q" "currentBet p = currentBet q"
    "folded p = folded q" "allIn p = allIn q" "isDealer p = isDealer q"
    unfolding e by simp_all
  moreover from l have "(holeCards p = []) = (holeCards q = [])"
    by (cases "holeCards p"; cases "holeCards q") simp_all
  ultimately show ?case using Cons.IH by simp
qed

text \<open>
  Claim C8. The public projection of a state carries neither the values of the players'
  hole cards nor the deck: two states that are the same up to these (with hole-card lists
  of the same lengths) have the same public state.
\<close>

theorem toPublicState_hides:
  assumes "sameUpToHidden s t"
  shows "toPublicState s = toPublicState t"
proof -
  from assms have e: "s\<lparr>deck := [], players := []\<rparr> = t\<lparr>deck := [], players := []\<rparr>"
    and pl: "list_all2 (\<lambda>p q. p\<lparr>holeCards := []\<rparr> = q\<lparr>holeCards := []\<rparr>
                         \<and> length (holeCards p) = length (holeCards q)) (players s) (players t)"
    by (simp_all add: sameUpToHidden_def)
  let ?h = "\<lambda>u. u\<lparr>deck := [], players := []\<rparr>"
  have "phase s = phase (?h s)" "communityCards s = communityCards (?h s)" "pots s = pots (?h s)"
    "currentBet_g s = currentBet_g (?h s)" "dealerIndex s = dealerIndex (?h s)"
    "activePlayerIndex s = activePlayerIndex (?h s)" "smallBlind s = smallBlind (?h s)"
    "bigBlind s = bigBlind (?h s)"
    by simp_all
  then have "phase s = phase t" "communityCards s = communityCards t" "pots s = pots t"
    "currentBet_g s = currentBet_g t" "dealerIndex s = dealerIndex t"
    "activePlayerIndex s = activePlayerIndex t" "smallBlind s = smallBlind t"
    "bigBlind s = bigBlind t"
    unfolding e by simp_all
  with publicPlayers_hidden[OF pl] show ?thesis
    by (simp add: toPublicState_def)
qed

theorem toPublicState_hides_witness:
  "sameUpToHidden
     (createInitialState
        \<lparr>players := [(createTestPlayer ''p1'' ''Alice'' 19 1)
                        \<lparr>holeCards := [\<lparr>rank = 14, suit = Spades\<rparr>, \<lparr>rank = 13, suit = Spades\<rparr>]\<rparr>],
         deck := [\<lparr>rank = 2, suit = Clubs\<rparr>]\<rparr>)
     (createInitialState
        \<lparr>players := [(createTestPlayer ''p1'' ''Alice'' 19 1)
                        \<lparr>holeCards := [\<lparr>rank = 7, suit = Hearts\<rparr>, \<lparr>rank = 2, suit = Diamonds\<rparr>]\<rparr>],
         deck := [\<lparr>rank = 9, suit = Hearts\<rparr>, \<lparr>rank = 3, suit = Clubs\<rparr>]\<rparr>)
   \<and> toPublicState
       (createInitialState
        \<lparr>players := [(createTestPlayer ''p1'' ''Alice'' 19 1)
                        \<lparr>holeCards := [\<lparr>rank = 14, suit = Spades\<rparr>, \<lparr>rank = 13, suit = Spades\<rparr>]\<rparr>],
         deck := [\<lparr>rank = 2, suit = Clubs\<rparr>]\<rparr>)
     = toPublicState
       (createInitialState
        \<lparr>players := [(createTestPlayer ''p1'' ''Alice'' 19 1)
                        \<lparr>holeCards := [\<lparr>rank = 7, suit = Hearts\<rparr>, \<lparr>rank = 2, suit = Diamonds\<rparr>]\<rparr>],
         deck := [\<lparr>rank = 9, suit = Hearts\<rparr>, \<lparr>rank = 3, suit = Clubs\<rparr>]\<rparr>)"
proof -
  let ?s = "createInitialState
        \<lparr>players := [(createTestPlayer ''p1'' ''Alice'' 19 1)
                        \<lparr>holeCards := [\<lparr>rank = 14, suit = Spades\<rparr>, \<lparr>rank = 13, suit = Spades\<rparr>]\<rparr>],
         deck := [\<lparr>rank = 2, suit = Clubs\<rparr>]\<rparr>"
  let ?t = "createInitialState
        \<lparr>players := [(createTestPlayer ''p1'' ''Alice'' 19 1)
                        \<lparr>holeCards := [\<lparr>rank = 7, suit = Hearts\<rparr>, \<lparr>rank = 2, suit = Diamonds\<rparr>]\<rparr>],
         deck := [\<lparr>rank = 9, suit = Hearts\<rparr>, \<lparr>rank = 3, suit = Clubs\<rparr>]\<rparr>"
  have h: "sameUpToHidden ?s ?t"
    by (simp add: sameUpToHidden_def createInitialState_def createTestPlayer_def)
  from h toPublicState_hides[OF h] show ?thesis by simp
qed

section \<open>Heads-up: the big blind's option\<close>

lemma length_createDeck: "length createDeck = 52"
  by (simp add: createDeck_def RANKS_def SUITS_def)

lemma jsRem_small:
  "jsRem 0 n = 0"
  "jsRem 1 (numeral b) = 1 mod numeral b"
  "jsRem (numeral a) (numeral b) = numeral a mod numeral b"
  by (simp_all add: jsRem_def)

lemma nextActiveLoop_two:
  "nextActiveLoop ps fromIndex inc 2 i = nextActiveLoop ps fromIndex inc (Suc (Suc 0)) i"
  by (simp add: numeral_2_eq_2)

text \<open>
  Claim C3, as amended. Two players holding more than 2 chips each, blinds 1 and 2, the
  button moving to seat 0: the hand starts with seat 0 posting 1 and seat 1 posting 2;
  after seat 0 calls, both bets are 2, it is seat 1's turn and the betting round is not
  complete; after seat 1 checks, it is complete.
\<close>

theorem headsUp_round_completion:
  assumes pl: "players state = [p0, p1]" and ids: "pid p0 \<noteq> pid p1"
    and c0: "2 < chips p0" and c1: "2 < chips p1"
    and sb: "smallBlind state = 1" and bb: "bigBlind state = 2"
    and dl: "jsRem (dealerIndex state + 1) 2 = 0" and dk: "4 \<le> length shuffled"
  shows "\<exists>s1 s2 s3.
      startNewHand shuffled state = Inr s1
    \<and> dealerIndex s1 = 0 \<and> map currentBet (players s1) = [1, 2]
    \<and> applyAction s1 (pid p0) \<lparr>type_a = Call, amount_a = None\<rparr> = Inr s2
    \<and> map currentBet (players s2) = [2, 2] \<and> activePlayerIndex s2 = 1
    \<and> isBettingRoundComplete s2 = Inr False
    \<and> applyAction s2 (pid p1) \<lparr>type_a = Check, amount_a = None\<rparr> = Inr s3
    \<and> isBettingRoundComplete s3 = Inr True"
proof -
  let ?q0 = "p0\<lparr>chips := chips p0 - 1, holeCards := take 2 shuffled, currentBet := 1,
                totalBetThisHand := 1, folded := False, allIn := False, isDealer := True\<rparr>"
  let ?q1 = "p1\<lparr>chips := chips p1 - 2, holeCards := take 2 (drop 2 shuffled), currentBet := 2,
                totalBetThisHand := 2, folded := False, allIn := False, isDealer := False\<rparr>"
  let ?s1 = "state\<lparr>phase := Preflop, players := [?q0, ?q1], communityCards := [],
                pots := [\<lparr>amount = 3, eligiblePlayerIds = [pid p0, pid p1]\<rparr>],
                currentBet_g := 2, dealerIndex := 0, activePlayerIndex := 0,
                lastRaiserIndex := 1, raisesThisStreet := 0, deck := drop 4 shuffled,
                streetBetSize := preflopFlopBetSize\<rparr>"
  let ?r0 = "?q0\<lparr>chips := chips p0 - 2, currentBet := 2, totalBetThisHand := 2\<rparr>"
  let ?s2 = "?s1\<lparr>players := [?r0, ?q1],
                pots := [\<lparr>amount = 4, eligiblePlayerIds = [pid p0, pid p1]\<rparr>],
                activePlayerIndex := 1\<rparr>"
  let ?s3 = "?s2\<lparr>activePlayerIndex := 0\<rparr>"
  have e1: "startNewHand shuffled state = Inr ?s1"
    using pl c0 c1 sb bb dl dk
    by (simp add: startNewHand_def minPlayers_def dealCards_def arrayGet_def postBlind_def
        Let_def enumerate_eq_zip jsRem_small)
  have e2: "applyAction ?s1 (pid p0) \<lparr>type_a = Call, amount_a = None\<rparr> = Inr ?s2"
    using ids c0 c1
    by (simp add: applyAction_def findIndex_def addToMainPot_def moveToNextPlayer_def
        getNextActivePlayerIndex_def nextActiveLoop_two arrayGet_def jsRem_small Let_def)
  have b2: "isBettingRoundComplete ?s2 = Inr False"
    using c0 c1
    by (simp add: isBettingRoundComplete_def getNextActivePlayerIndex_def nextActiveLoop_two
        arrayGet_def jsRem_small Let_def)
  have e3: "applyAction ?s2 (pid p1) \<lparr>type_a = Check, amount_a = None\<rparr> = Inr ?s3"
    using ids c0 c1
    by (simp add: applyAction_def findIndex_def moveToNextPlayer_def
        getNextActivePlayerIndex_def nextActiveLoop_two arrayGet_def jsRem_small Let_def)
  have b3: "isBettingRoundComplete ?s3 = Inr True"
    using c0 c1
    by (simp add: isBettingRoundComplete_def getNextActivePlayerIndex_def nextActiveLoop_two
        arrayGet_def jsRem_small Let_def)
  have f1: "dealerIndex ?s1 = 0" "map currentBet (players ?s1) = [1, 2]" by simp_all
  have f2: "map currentBet (players ?s2) = [2, 2]" "activePlayerIndex ?s2 = 1" by simp_all
  show ?thesis
    by (rule exI[where x = ?s1], rule exI[where x = ?s2], rule exI[where x = ?s3])
      (simp only: e1 e2 b2 e3 b3 f1 f2 simp_thms)
qed

text \<open>The theorem at the table of the tests: 20 chips each, the unshuffled deck.\<close>

theorem headsUp_round_completion_witness:
  "players (headsUpLobby 20 20)
     = [createTestPlayer ''p1'' ''Alice'' 20 0, createTestPlayer ''p2'' ''Bob'' 20 0]
   \<and> pid (createTestPlayer ''p1'' ''Alice'' 20 0) \<noteq> pid (createTestPlayer ''p2'' ''Bob'' 20 0)
   \<and> 2 < chips (createTestPlayer ''p1'' ''Alice'' 20 0)
   \<and> 2 < chips (createTestPlayer ''p2'' ''Bob'' 20 0)
   \<and> smallBlind (headsUpLobby 20 20) = 1 \<and> bigBlind (headsUpLobby 20 20) = 2
   \<and> jsRem (dealerIndex (headsUpLobby 20 20) + 1) 2 = 0
   \<and> 4 \<le> length createDeck
   \<and> (\<exists>s1 s2 s3.
        startNewHand createDeck (headsUpLobby 20 20) = Inr s1
      \<and> dealerIndex s1 = 0 \<and> map currentBet (players s1) = [1, 2]
      \<and> applyAction s1 ''p1'' \<lparr>type_a = Call, amount_a = None\<rparr> = Inr s2
      \<and> map currentBet (players s2) = [2, 2] \<and> activePlayerIndex s2 = 1
      \<and> isBettingRoundComplete s2 = Inr False
      \<and> applyAction s2 ''p2'' \<lparr>type_a = Check, amount_a = None\<rparr> = Inr s3
      \<and> isBettingRoundComplete s3 = Inr True)"
proof -
  let ?a = "createTestPlayer ''p1'' ''Alice'' 20 0" and ?b = "createTestPlayer ''p2'' ''Bob'' 20 0"
  have h: "players (headsUpLobby 20 20) = [?a, ?b]" "pid ?a \<noteq> pid ?b"
    "2 < chips ?a" "2 < chips ?b"
    "smallBlind (headsUpLobby 20 20) = 1" "bigBlind (headsUpLobby 20 20) = 2"
    "jsRem (dealerIndex (headsUpLobby 20 20) + 1) 2 = 0" "4 \<le> length createDeck"
    by (simp_all add: headsUpLobby_def createInitialState_def createTestPlayer_def
        defaultSmallBlind_def defaultBigBlind_def jsRem_small length_createDeck)
  have ids: "pid ?a = ''p1''" "pid ?b = ''p2''" by (simp_all add: createTestPlayer_def)
  from headsUp_round_completion[OF h] h show ?thesis
    unfolding ids by (intro conjI)
qed

text \<open>
  Claim C3 as stated fails when the call puts seat 0 all-in: with a stack of 2 chips on
  seat 0, after the blinds of 1 and 2 and the call of seat 0 both bets are 2 and it is
  seat 1's turn, and the betting round is already complete.
\<close>

theorem headsUp_round_completion_counterexample:
  "startNewHand createDeck (headsUpLobby 2 20) = Inr shortHand
   \<and> dealerIndex shortHand = 0 \<and> map currentBet (players shortHand) = [1, 2]
   \<and> applyAction shortHand ''p1'' \<lparr>type_a = Call, amount_a = None\<rparr> = Inr shortCalled
   \<and> map currentBet (players shortCalled) = [2, 2] \<and> activePlayerIndex shortCalled = 1
   \<and> isBettingRoundComplete shortCalled = Inr True"
proof -
  have e1: "startNewHand createDeck (headsUpLobby 2 20) = Inr shortHand"
    by (simp add: startNewHand_def minPlayers_def dealCards_def arrayGet_def postBlind_def
        Let_def enumerate_eq_zip jsRem_small length_createDeck shortHand_def headsUpLobby_def
        createInitialState_def createTestPlayer_def defaultSmallBlind_def defaultBigBlind_def
        preflopFlopBetSize_def)
  have e2: "applyAction shortHand ''p1'' \<lparr>type_a = Call, amount_a = None\<rparr> = Inr shortCalled"
    by (simp add: applyAction_def findIndex_def addToMainPot_def moveToNextPlayer_def
        getNextActivePlayerIndex_def nextActiveLoop_two arrayGet_def jsRem_small Let_def
        shortCalled_def shortHand_def createTestPlayer_def)
  have b2: "isBettingRoundComplete shortCalled = Inr True"
    by (simp add: isBettingRoundComplete_def getNextActivePlayerIndex_def nextActiveLoop_two
        arrayGet_def jsRem_small Let_def shortCalled_def shortHand_def createTestPlayer_def)
  have f: "dealerIndex shortHand = 0" "map currentBet (players shortHand) = [1, 2]"
    "map currentBet (players shortCalled) = [2, 2]" "activePlayerIndex shortCalled = 1"
    by (simp_all add: shortCalled_def shortHand_def createTestPlayer_def)
  from e1 e2 b2 f show ?thesis by (intro conjI)
qed

section \<open>Posting the blinds\<close>

lemma dealHoleCards_keeps:
  "dealHoleCards ps dk = Inr (ps', dk') \<Longrightarrow>
   map (\<lambda>p. p\<lparr>holeCards := []\<rparr>) ps' = map (\<lambda>p. p\<lparr>holeCards := []\<rparr>) ps"
proof (induction ps arbitrary: dk ps' dk')
  case Nil
  then show ?case by simp
next
  case (Cons p ps)
  from Cons.prems obtain cards dk1 rest' dk2
    where "dealCards dk 2 = Inr (cards, dk1)"
      and r: "dealHoleCards ps dk1 = Inr (rest', dk2)"
      and e: "ps' = p\<lparr>holeCards := cards\<rparr> # rest'"
    by (auto split: sum.splits prod.splits)
  from Cons.IH[OF r] e show ?case by simp
qed

lemma dealHoleCards_length:
  "dealHoleCards ps dk = Inr (ps', dk') \<Longrightarrow> length ps' = length ps"
  using dealHoleCards_keeps map_eq_imp_length_eq by blast

lemma dealHoleCards_nth:
  assumes "dealHoleCards ps dk = Inr (ps', dk')" and "i < length ps"
  shows "(ps' ! i)\<lparr>holeCards := []\<rparr> = (ps ! i)\<lparr>holeCards := []\<rparr>"
proof -
  have "map (\<lambda>p. p\<lparr>holeCards := []\<rparr>) ps' ! i = map (\<lambda>p. p\<lparr>holeCards := []\<rparr>) ps ! i"
    using dealHoleCards_keeps[OF assms(1)] by simp
  then show ?thesis
    using assms(2) dealHoleCards_length[OF assms(1)] by simp
qed

lemma dealHoleCards_succeeds:
  "2 * length ps \<le> length dk \<Longrightarrow> \<exists>ps' dk'. dealHoleCards ps dk = Inr (ps', dk')"
proof (induction ps arbitrary: dk)
  case Nil
  then show ?case by simp
next
  case (Cons p ps)
  then have "2 * length ps \<le> length (drop 2 dk)" by simp
  from Cons.IH[OF this] obtain rest' dk2
    where "dealHoleCards ps (drop 2 dk) = Inr (rest', dk2)" by blast
  with Cons.prems show ?case by (simp add: dealCards_def)
qed

text \<open>With a dealer index that is not negative, the two blind seats exist and differ.\<close>

lemma blind_seats:
  assumes "2 \<le> length (players state)" and "0 \<le> dealerIndex state"
  shows "0 \<le> sbSeat state" "sbSeat state < int (length (players state))"
    "0 \<le> bbSeat state" "bbSeat state < int (length (players state))"
    "sbSeat state \<noteq> bbSeat state"
proof -
  let ?n = "int (length (players state))"
  let ?d = "(dealerIndex state + 1) mod ?n"
  have n: "2 \<le> ?n" using assms(1) by simp
  have n0: "0 < ?n" using assms(1) by linarith
  have d: "jsRem (dealerIndex state + 1) ?n = ?d"
  proof (rule jsRem_nonneg)
    show "0 \<le> dealerIndex state + 1" using assms(2) by linarith
    show "0 < ?n" by (rule n0)
  qed
  have dr: "0 \<le> ?d" "?d < ?n" using n0 by simp_all
  have j1: "jsRem (?d + 1) ?n = (?d + 1) mod ?n"
  proof (rule jsRem_nonneg)
    show "0 \<le> ?d + 1" using dr(1) by linarith
    show "0 < ?n" by (rule n0)
  qed
  have j2: "jsRem (?d + 2) ?n = (?d + 2) mod ?n"
  proof (rule jsRem_nonneg)
    show "0 \<le> ?d + 2" using dr(1) by linarith
    show "0 < ?n" by (rule n0)
  qed
  have m1: "0 \<le> (?d + 1) mod ?n" "(?d + 1) mod ?n < ?n"
    using n0 by (rule pos_mod_sign, rule pos_mod_bound)
  have m2: "0 \<le> (?d + 2) mod ?n" "(?d + 2) mod ?n < ?n"
    using n0 by (rule pos_mod_sign, rule pos_mod_bound)
  have "\<exists>a b. sbSeat state = a \<and> bbSeat state = b
          \<and> 0 \<le> a \<and> a < ?n \<and> 0 \<le> b \<and> b < ?n \<and> a \<noteq> b"
  proof (cases "?n = 2")
    case True
    have sb: "sbSeat state = ?d"
      unfolding sbSeat_def Let_def d using True by simp
    have bb: "bbSeat state = (?d + 1) mod ?n"
      unfolding bbSeat_def Let_def d j1 using True by simp
    have "x \<noteq> (x + 1) mod 2" for x :: int by presburger
    then have "?d \<noteq> (?d + 1) mod ?n" using True by simp
    with sb bb dr m1 show ?thesis by blast
  next
    case False
    have sb: "sbSeat state = (?d + 1) mod ?n"
      unfolding sbSeat_def Let_def d j1 using False by simp
    have bb: "bbSeat state = (?d + 2) mod ?n"
      unfolding bbSeat_def Let_def d j2 using False by simp
    have "(?d + 1) mod ?n \<noteq> (?d + 2) mod ?n"
    proof
      assume "(?d + 1) mod ?n = (?d + 2) mod ?n"
      then have "?n dvd (?d + 2) - (?d + 1)" by (metis mod_eq_dvd_iff)
      then have "?n dvd 1" by simp
      with n show False by simp
    qed
    with sb bb m1 m2 show ?thesis by blast
  qed
  then obtain a b where "sbSeat state = a" "bbSeat state = b"
    "0 \<le> a" "a < ?n" "0 \<le> b" "b < ?n" "a \<noteq> b" by blast
  then show "0 \<le> sbSeat state" "sbSeat state < ?n" "0 \<le> bbSeat state" "bbSeat state < ?n"
    "sbSeat state \<noteq> bbSeat state"
    by simp_all
qed

lemma startNewHand_unfold:
  assumes "\<not> int (length (players state)) < minPlayers"
    and "dealHoleCards
           (map (\<lambda>(idx, p).
                    p\<lparr>holeCards := [], currentBet := 0, totalBetThisHand := 0,
                      folded := False, allIn := False,
                      isDealer := (int idx = jsRem (dealerIndex state + 1)
                                                (int (length (players state))))\<rparr>)
                (enumerate 0 (players state)))
           shuffled = Inr (players1, dk)"
    and "arrayGet players1 (sbSeat state) = Some sbPlayer"
    and "arrayGet players1 (bbSeat state) = Some bbPlayer"
  shows "\<exists>state'. startNewHand shuffled state = Inr state'
     \<and> currentBet_g state' = bigBlind state
     \<and> players state' =
         (players1[nat (sbSeat state) :=
                     postBlind sbPlayer (min (smallBlind state) (chips sbPlayer))])
           [nat (bbSeat state) :=
              postBlind
                ((players1[nat (sbSeat state) :=
                     postBlind sbPlayer (min (smallBlind state) (chips sbPlayer))])
                 ! nat (bbSeat state))
                (min (bigBlind state) (chips bbPlayer))]"
  using assms unfolding startNewHand_def sbSeat_def bbSeat_def Let_def
  by simp

text \<open>
  Claim C9. When a hand starts (at least two players, a dealer index that is not negative,
  two cards in the deck for each player), \<open>startNewHand\<close> returns a state in which a
  blind seat whose chips were below its blind has no chips left, has its former chips as
  \<open>currentBet\<close> and \<open>totalBetThisHand\<close>, and is all-in; and the \<open>currentBet\<close> of the
  table is the configured big blind, whatever the big-blind seat posted.
\<close>

theorem startNewHand_short_blind:
  assumes n2: "2 \<le> length (players state)" and d0: "0 \<le> dealerIndex state"
    and dk: "2 * length (players state) \<le> length shuffled"
  shows "\<exists>state' sbP sbP' bbP bbP'.
      startNewHand shuffled state = Inr state'
    \<and> arrayGet (players state) (sbSeat state) = Some sbP
    \<and> arrayGet (players state') (sbSeat state) = Some sbP'
    \<and> arrayGet (players state) (bbSeat state) = Some bbP
    \<and> arrayGet (players state') (bbSeat state) = Some bbP'
    \<and> (chips sbP < smallBlind state \<longrightarrow>
         chips sbP' = 0 \<and> currentBet sbP' = chips sbP \<and> totalBetThisHand sbP' = chips sbP
         \<and> allIn sbP')
    \<and> (chips bbP < bigBlind state \<longrightarrow>
         chips bbP' = 0 \<and> currentBet bbP' = chips bbP \<and> totalBetThisHand bbP' = chips bbP
         \<and> allIn bbP')
    \<and> currentBet_g state' = bigBlind state"
proof -
  let ?n = "length (players state)"
  let ?reset = "\<lambda>(idx, p).
      p\<lparr>holeCards := [], currentBet := 0, totalBetThisHand := 0, folded := False,
        allIn := False,
        isDealer := (int idx = jsRem (dealerIndex state + 1) (int (length (players state))))\<rparr>"
  let ?players0 = "map ?reset (enumerate 0 (players state))"
  let ?sb = "nat (sbSeat state)" and ?bb = "nat (bbSeat state)"
  note seats = blind_seats[OF n2 d0]
  have sb_lt: "?sb < ?n" and bb_lt: "?bb < ?n" and ne: "?sb \<noteq> ?bb"
    using seats by simp_all
  have "2 * length ?players0 \<le> length shuffled" using dk by simp
  from dealHoleCards_succeeds[OF this] obtain players1 dk'
    where deal: "dealHoleCards ?players0 shuffled = Inr (players1, dk')" by blast
  have len1: "length players1 = ?n"
    using dealHoleCards_length[OF deal] by simp
  have keep: "(players1 ! i)\<lparr>holeCards := []\<rparr> = (?players0 ! i)\<lparr>holeCards := []\<rparr>"
    if "i < ?n" for i
    using dealHoleCards_nth[OF deal, of i] that by simp
  have chips1: "chips (players1 ! i) = chips (players state ! i)" if "i < ?n" for i
  proof -
    have "chips (players1 ! i) = chips ((players1 ! i)\<lparr>holeCards := []\<rparr>)" by simp
    also have "\<dots> = chips ((?players0 ! i)\<lparr>holeCards := []\<rparr>)"
      using keep[OF that] by simp
    also have "\<dots> = chips (players state ! i)"
      using that by (simp add: nth_enumerate_eq)
    finally show ?thesis .
  qed
  let ?sbPlayer = "players1 ! ?sb" and ?bbPlayer = "players1 ! ?bb"
  have g_sb: "arrayGet players1 (sbSeat state) = Some ?sbPlayer"
    and g_bb: "arrayGet players1 (bbSeat state) = Some ?bbPlayer"
    using seats len1 by (simp_all add: arrayGet_def)
  have nmin: "\<not> int ?n < minPlayers" using n2 by (simp add: minPlayers_def)
  let ?players2 = "players1[?sb := postBlind ?sbPlayer (min (smallBlind state) (chips ?sbPlayer))]"
  from startNewHand_unfold[OF nmin deal g_sb g_bb] obtain state'
    where res: "startNewHand shuffled state = Inr state'"
      and cb: "currentBet_g state' = bigBlind state"
      and pl: "players state' =
          ?players2[?bb := postBlind (?players2 ! ?bb) (min (bigBlind state) (chips ?bbPlayer))]"
    by blast
  have p2bb: "?players2 ! ?bb = ?bbPlayer" using ne by simp
  let ?sbP' = "postBlind ?sbPlayer (min (smallBlind state) (chips ?sbPlayer))"
  let ?bbP' = "postBlind ?bbPlayer (min (bigBlind state) (chips ?bbPlayer))"
  have at_sb: "players state' ! ?sb = ?sbP'"
    using pl ne sb_lt len1 by simp
  have at_bb: "players state' ! ?bb = ?bbP'"
    using pl p2bb bb_lt len1 by simp
  have len': "length (players state') = ?n" using pl len1 by simp
  have a1: "arrayGet (players state) (sbSeat state) = Some (players state ! ?sb)"
    and a2: "arrayGet (players state') (sbSeat state) = Some ?sbP'"
    and a3: "arrayGet (players state) (bbSeat state) = Some (players state ! ?bb)"
    and a4: "arrayGet (players state') (bbSeat state) = Some ?bbP'"
    using seats len' at_sb at_bb by (simp_all add: arrayGet_def)
  have short_sb: "chips (players state ! ?sb) < smallBlind state \<longrightarrow>
      chips ?sbP' = 0 \<and> currentBet ?sbP' = chips (players state ! ?sb)
      \<and> totalBetThisHand ?sbP' = chips (players state ! ?sb) \<and> allIn ?sbP'"
    using chips1[OF sb_lt] by (simp add: postBlind_def)
  have short_bb: "chips (players state ! ?bb) < bigBlind state \<longrightarrow>
      chips ?bbP' = 0 \<and> currentBet ?bbP' = chips (players state ! ?bb)
      \<and> totalBetThisHand ?bbP' = chips (players state ! ?bb) \<and> allIn ?bbP'"
    using chips1[OF bb_lt] by (simp add: postBlind_def)
  from res a1 a2 a3 a4 short_sb short_bb cb show ?thesis by blast
qed

text \<open>
  The theorem at a three-handed table where the big-blind seat holds a single chip: that
  seat posts 1 and is all-in, and the bet to match is 2.
\<close>

theorem startNewHand_short_blind_witness:
  "2 \<le> length (players (createInitialState
       \<lparr>players := [createTestPlayer ''p1'' ''Alice'' 20 0, createTestPlayer ''p2'' ''Bob'' 20 0,
                    createTestPlayer ''p3'' ''Charlie'' 1 0],
        dealerIndex := 2\<rparr>))
   \<and> 0 \<le> dealerIndex (createInitialState
       \<lparr>players := [createTestPlayer ''p1'' ''Alice'' 20 0, createTestPlayer ''p2'' ''Bob'' 20 0,
                    createTestPlayer ''p3'' ''Charlie'' 1 0],
        dealerIndex := 2\<rparr>)
   \<and> 2 * length (players (createInitialState
       \<lparr>players := [createTestPlayer ''p1'' ''Alice'' 20 0, createTestPlayer ''p2'' ''Bob'' 20 0,
                    createTestPlayer ''p3'' ''Charlie'' 1 0],
        dealerIndex := 2\<rparr>)) \<le> length createDeck
   \<and> (\<exists>state' bbP'.
        startNewHand createDeck (createInitialState
          \<lparr>players := [createTestPlayer ''p1'' ''Alice'' 20 0, createTestPlayer ''p2'' ''Bob'' 20 0,
                       createTestPlayer ''p3'' ''Charlie'' 1 0],
           dealerIndex := 2\<rparr>) = Inr state'
      \<and> arrayGet (players state') 2 = Some bbP'
      \<and> chips bbP' = 0 \<and> currentBet bbP' = 1 \<and> totalBetThisHand bbP' = 1 \<and> allIn bbP'
      \<and> currentBet_g state' = 2)"
proof -
  let ?s = "createInitialState
       \<lparr>players := [createTestPlayer ''p1'' ''Alice'' 20 0, createTestPlayer ''p2'' ''Bob'' 20 0,
                    createTestPlayer ''p3'' ''Charlie'' 1 0],
        dealerIndex := 2\<rparr>"
  have h: "2 \<le> length (players ?s)" "0 \<le> dealerIndex ?s"
    "2 * length (players ?s) \<le> length createDeck"
    by (simp_all add: length_createDeck)
  have seat: "bbSeat ?s = 2"
    by (simp add: bbSeat_def jsRem_small)
  have old: "arrayGet (players ?s) 2 = Some (createTestPlayer ''p3'' ''Charlie'' 1 0)"
    by (simp add: arrayGet_def)
  have blind: "bigBlind ?s = 2"
    by (simp add: createInitialState_def defaultBigBlind_def)
  from startNewHand_short_blind[OF h] obtain state' sbP sbP' bbP bbP'
    where r: "startNewHand createDeck ?s = Inr state'"
      and b: "arrayGet (players ?s) (bbSeat ?s) = Some bbP"
      and b': "arrayGet (players state') (bbSeat ?s) = Some bbP'"
      and short: "chips bbP < bigBlind ?s \<longrightarrow>
         chips bbP' = 0 \<and> currentBet bbP' = chips bbP \<and> totalBetThisHand bbP' = chips bbP
         \<and> allIn bbP'"
      and cb: "currentBet_g state' = bigBlind ?s"
    by blast
  from b old have bbP: "bbP = createTestPlayer ''p3'' ''Charlie'' 1 0"
    unfolding seat by simp
  have c: "chips bbP = 1" unfolding bbP by (simp add: createTestPlayer_def)
  from short have post: "chips bbP' = 0 \<and> currentBet bbP' = 1 \<and> totalBetThisHand bbP' = 1
      \<and> allIn bbP'"
    unfolding c blind by simp
  from r b' post cb have "\<exists>state' bbP'.
        startNewHand createDeck ?s = Inr state'
      \<and> arrayGet (players state') 2 = Some bbP'
      \<and> chips bbP' = 0 \<and> currentBet bbP' = 1 \<and> totalBetThisHand bbP' = 1 \<and> allIn bbP'
      \<and> currentBet_g state' = 2"
    unfolding seat blind by blast
  with h show ?thesis by (intro conjI)
qed

section \<open>The raise cap\<close>

lemma canRaise_cap:
  "canRaise (getLegalActions state) \<Longrightarrow> raisesThisStreet state < maxRaisesPerStreet"
  by (auto simp: getLegalActions_def noLegalActions_def Let_def split: option.splits if_splits)

lemma startNewHand_raises:
  assumes "startNewHand shuffled state = Inr state'"
  shows "state' = state \<or> raisesThisStreet state' = 0"
proof (cases "int (length (players state)) < minPlayers")
  case True
  with assms show ?thesis by (simp add: startNewHand_def)
next
  case False
  with assms show ?thesis
    unfolding startNewHand_def Let_def
    by (auto split: sum.splits prod.splits option.splits)
qed

lemma advanceStreet_raises:
  assumes "advanceStreet state = Inr state'"
  shows "state' = state \<or> raisesThisStreet state' = 0"
  using assms unfolding advanceStreet_def Let_def
  by (auto split: sum.splits prod.splits option.splits)

lemma moveToNextPlayer_raises:
  "moveToNextPlayer state ps pts i = Inr state' \<Longrightarrow>
   raisesThisStreet state' = raisesThisStreet state"
  unfolding moveToNextPlayer_def by (auto split: sum.splits)

text \<open>
  Every action but an all-in leaves the count of raises alone, except a raise that is
  carried out, which adds one.
\<close>

lemma applyAction_raises:
  assumes "applyAction state playerId action = Inr state'" and "type_a action \<noteq> AllIn"
  shows "raisesThisStreet state' = raisesThisStreet state
         \<or> (type_a action = Raise \<and> raisesThisStreet state' = raisesThisStreet state + 1)"
proof (cases "findIndex (\<lambda>p. pid p = playerId) (players state) = -1
              \<or> findIndex (\<lambda>p. pid p = playerId) (players state) \<noteq> activePlayerIndex state")
  case True
  with assms(1) show ?thesis by (auto simp: applyAction_def Let_def)
next
  case False
  show ?thesis
  proof (cases "type_a action")
    case Fold
    with False assms(1) show ?thesis
      by (auto simp: applyAction_def Let_def dest: moveToNextPlayer_raises)
  next
    case Check
    with False assms(1) show ?thesis
      by (auto simp: applyAction_def Let_def dest: moveToNextPlayer_raises)
  next
    case Call
    with False assms(1) show ?thesis
      by (auto simp: applyAction_def Let_def split: sum.splits dest: moveToNextPlayer_raises)
  next
    case Raise
    with False assms(1) show ?thesis
      by (auto simp: applyAction_def Let_def split: sum.splits if_splits)
  next
    case AllIn
    with assms(2) show ?thesis by simp
  qed
qed

lemma handleAction_keeps_cap:
  assumes "handleAction state sender action = Inr state'" and "type_a action \<noteq> AllIn"
    and "raisesThisStreet state \<le> maxRaisesPerStreet"
  shows "raisesThisStreet state' \<le> maxRaisesPerStreet"
proof (cases "handleAction state sender action = applyAction state sender action
              \<and> isLegalAction action (getLegalActions state)")
  case True
  then have a: "applyAction state sender action = Inr state'"
    and l: "isLegalAction action (getLegalActions state)"
    using assms(1) by simp_all
  from applyAction_raises[OF a assms(2)] show ?thesis
  proof
    assume "raisesThisStreet state' = raisesThisStreet state"
    with assms(3) show ?thesis by simp
  next
    assume r: "type_a action = Raise \<and> raisesThisStreet state' = raisesThisStreet state + 1"
    with l have "canRaise (getLegalActions state)"
      by (auto simp: isLegalAction_def split: if_splits)
    from canRaise_cap[OF this] r show ?thesis by simp
  qed
next
  case False
  then have "state' = state"
    using assms(1) by (auto simp: handleAction_def split: if_splits)
  with assms(3) show ?thesis by simp
qed

lemma stepValidated_keeps_cap:
  assumes "stepValidated state ev = Inr state'" and "\<not> isAllIn ev"
    and "raisesThisStreet state \<le> maxRaisesPerStreet"
  shows "raisesThisStreet state' \<le> maxRaisesPerStreet"
proof (cases ev)
  case (NewHand shuffled)
  with assms(1) have "state' = state \<or> raisesThisStreet state' = 0"
    by (simp add: startNewHand_raises)
  with assms(3) show ?thesis by (auto simp: maxRaisesPerStreet_def)
next
  case (Action sender action)
  with assms show ?thesis by (auto dest: handleAction_keeps_cap)
next
  case NextStreet
  with assms(1) have "state' = state \<or> raisesThisStreet state' = 0"
    by (simp add: advanceStreet_raises)
  with assms(3) show ?thesis by (auto simp: maxRaisesPerStreet_def)
qed

lemma runValidated_keeps_cap:
  assumes "runValidated state evs = Inr state'" and "\<not> list_ex isAllIn evs"
    and "raisesThisStreet state \<le> maxRaisesPerStreet"
  shows "raisesThisStreet state' \<le> maxRaisesPerStreet"
  using assms
proof (induction evs arbitrary: state)
  case Nil
  then show ?case by simp
next
  case (Cons ev evs)
  from Cons.prems(1) obtain mid
    where s: "stepValidated state ev = Inr mid" and r: "runValidated mid evs = Inr state'"
    by (auto split: sum.splits)
  from Cons.prems(2) have n: "\<not> isAllIn ev" "\<not> list_ex isAllIn evs" by simp_all
  from stepValidated_keeps_cap[OF s n(1) Cons.prems(3)]
  have "raisesThisStreet mid \<le> maxRaisesPerStreet" .
  with Cons.IH[OF r n(2)] show ?case .
qed

text \<open>
  Apart from the all-in, validated play keeps the cap: from the initial state with any
  players seated, every state reached by new hands, street advances and player actions
  that pass the validation of the server and are not all-ins has \<open>raisesThisStreet\<close> at
  most \<open>maxRaisesPerStreet\<close>. This is the raise path, which \<open>canRaise\<close> closes at the cap.
\<close>

lemma validated_raises_capped:
  assumes "runValidated (createInitialState\<lparr>players := ps\<rparr>) evs = Inr state'"
    and "\<not> list_ex isAllIn evs"
  shows "raisesThisStreet state' \<le> maxRaisesPerStreet"
proof -
  have "raisesThisStreet (createInitialState\<lparr>players := ps\<rparr>) \<le> maxRaisesPerStreet"
    by (simp add: createInitialState_def maxRaisesPerStreet_def)
  from runValidated_keeps_cap[OF assms this] show ?thesis .
qed

lemmas table_defs =
  lobbyOfTwo_def raiseAction_def allInAction_def createInitialState_def createTestPlayer_def
  defaultSmallBlind_def defaultBigBlind_def preflopFlopBetSize_def minPlayers_def
  maxRaisesPerStreet_def

lemmas hand_defs =
  startNewHand_def dealCards_def arrayGet_def postBlind_def enumerate_eq_zip
  applyAction_def findIndex_def addToMainPot_def getNextActivePlayerIndex_def
  nextActiveLoop_two jsRem_small length_createDeck Let_def

lemmas validation_defs =
  handleAction_def getLegalActions_def isLegalAction_def noLegalActions_def

text \<open>
  \<open>applyAction\<close> itself does not look at the count (the validation is the caller's): four
  raises applied to it directly leave \<open>raisesThisStreet\<close> at 4.
\<close>

lemma direct_raises_pass_cap:
  "map_sum id raisesThisStreet
     (run lobbyOfTwo
        [NewHand createDeck, Action ''p2'' raiseAction, Action ''p1'' raiseAction,
         Action ''p2'' raiseAction, Action ''p1'' raiseAction]) = Inr 4"
  by (simp add: table_defs hand_defs)

text \<open>
  Claim C2 says that \<open>raisesThisStreet\<close> never exceeds \<open>maxRaisesPerStreet\<close> (3) in a
  reachable state. The code breaks it in a hand played through the validation of the
  server alone. Heads-up with 20 chips each, after the blinds and three raises the count
  is 3; \<open>getLegalActions\<close> then refuses a raise but still offers the all-in, the server
  accepts it, \<open>applyAction\<close> counts it as a raise, and the count is 4.
\<close>

theorem raisesThisStreet_exceeds_cap:
  "map_sum id raisesThisStreet
     (runValidated lobbyOfTwo
        [NewHand createDeck, Action ''p2'' raiseAction, Action ''p1'' raiseAction,
         Action ''p2'' raiseAction]) = Inr maxRaisesPerStreet
   \<and> map_sum id (\<lambda>state. canRaise (getLegalActions state))
     (runValidated lobbyOfTwo
        [NewHand createDeck, Action ''p2'' raiseAction, Action ''p1'' raiseAction,
         Action ''p2'' raiseAction]) = Inr False
   \<and> map_sum id (\<lambda>state. isLegalAction allInAction (getLegalActions state))
     (runValidated lobbyOfTwo
        [NewHand createDeck, Action ''p2'' raiseAction, Action ''p1'' raiseAction,
         Action ''p2'' raiseAction]) = Inr True
   \<and> map_sum id raisesThisStreet
     (runValidated lobbyOfTwo
        [NewHand createDeck, Action ''p2'' raiseAction, Action ''p1'' raiseAction,
         Action ''p2'' raiseAction, Action ''p1'' allInAction]) = Inr 4
   \<and> (4::int) > maxRaisesPerStreet"
  by (simp add: validation_defs table_defs hand_defs)

end
